theory Spec2Isabelle
  imports Main "HOL-Library.Word"
begin

section \<open>Markdown tools of knowing-mcp: a shallow embedding of \<^verbatim>\<open>scripts/markdown-tools.py\<close>\<close>

text \<open>
  The embedding follows the Python source function by function.

  \<^item> A Python \<^verbatim>\<open>str\<close> is a list of Unicode code points (\<open>nat list\<close>); \<open>ascii\<close> turns
    an ASCII literal into one. Raw file contents are lists of 8-bit bytes.
  \<^item> Python integers are \<open>int\<close>; indexing and slicing follow Python (negative indices count
    from the end, slices clamp, an index out of range raises \<open>IndexError\<close>).
  \<^item> The editor's mutable state (\<^verbatim>\<open>buffer\<close>, \<^verbatim>\<open>diagnostics\<close>, \<^verbatim>\<open>matches\<close>) is a record
    that every operation takes and returns; an operation returns \<open>Inr (ok, editor)\<close> or
    \<open>Inl exception\<close>.
  \<^item> The libraries the script calls (hashlib, markdown-it, re, yaml, mdformat) are not part
    of the repository; they are the fields of the record \<open>env\<close>, and every definition that
    calls one takes the \<open>env\<close> as its first argument.
  \<^item> The text of a diagnostic is an f-string; the model keeps the template and its
    arguments (\<open>message\<close>) instead of the formatted text.
\<close>

subsection \<open>Strings, bytes and Python slicing\<close>

type_synonym str = "nat list"
type_synonym byte = "8 word"

definition ascii :: "string \<Rightarrow> str" where
  "ascii cs = map of_char cs"

datatype py_exn = IndexError | KeyError | TypeError | UnicodeError | OSError

text \<open>\<^verbatim>\<open>xs[:b]\<close>, \<^verbatim>\<open>xs[a:]\<close> and \<^verbatim>\<open>xs[a:b]\<close>: a negative bound counts from the end, and
  both bounds are clamped to \<open>[0, len(xs)]\<close>.\<close>

definition slice_index :: "nat \<Rightarrow> int \<Rightarrow> nat" where
  "slice_index n i = (if i < 0 then nat (max 0 (int n + i)) else min (nat i) n)"

definition py_upto :: "int \<Rightarrow> 'a list \<Rightarrow> 'a list" where
  "py_upto b xs = take (slice_index (length xs) b) xs"

definition py_from :: "int \<Rightarrow> 'a list \<Rightarrow> 'a list" where
  "py_from a xs = drop (slice_index (length xs) a) xs"

definition py_slice :: "int \<Rightarrow> int \<Rightarrow> 'a list \<Rightarrow> 'a list" where
  "py_slice a b xs =
     (let lo = slice_index (length xs) a; hi = slice_index (length xs) b
      in take (hi - lo) (drop lo xs))"

text \<open>\<^verbatim>\<open>xs[i]\<close>.\<close>

definition py_index :: "'a list \<Rightarrow> int \<Rightarrow> py_exn + 'a" where
  "py_index xs i =
     (if 0 \<le> i \<and> i < int (length xs) then Inr (xs ! nat i)
      else if i < 0 \<and> - int (length xs) \<le> i then Inr (xs ! nat (int (length xs) + i))
      else Inl IndexError)"

text \<open>\<^verbatim>\<open>sep.join(parts)\<close>.\<close>

fun join :: "'a list \<Rightarrow> 'a list list \<Rightarrow> 'a list" where
  "join sep [] = []"
| "join sep [x] = x"
| "join sep (x # y # ys) = x @ sep @ join sep (y # ys)"

text \<open>\<^verbatim>\<open>s.startswith(p)\<close> and \<^verbatim>\<open>s.endswith(p)\<close>.\<close>

definition startswith :: "'a list \<Rightarrow> 'a list \<Rightarrow> bool" where
  "startswith s p = (take (length p) s = p)"

definition endswith :: "'a list \<Rightarrow> 'a list \<Rightarrow> bool" where
  "endswith s p = (length p \<le> length s \<and> drop (length s - length p) s = p)"

text \<open>\<^verbatim>\<open>s.split(sep)\<close> for a non-empty separator: the pieces between the non-overlapping
  occurrences of \<open>sep\<close>, found from the left. \<open>split_acc sep cur s\<close> scans \<open>s\<close> with the
  piece read so far in \<open>cur\<close>.\<close>

function split_acc :: "'a list \<Rightarrow> 'a list \<Rightarrow> 'a list \<Rightarrow> 'a list list" where
  "split_acc sep cur s =
     (if s = [] then [cur]
      else if sep \<noteq> [] \<and> startswith s sep then cur # split_acc sep [] (drop (length sep) s)
      else split_acc sep (cur @ [hd s]) (tl s))"
  by pat_completeness auto
termination
  by (relation "measure (\<lambda>(sep, cur, s). length s)") auto

definition split :: "'a list \<Rightarrow> 'a list \<Rightarrow> 'a list list" where
  "split sep s = split_acc sep [] s"

text \<open>\<^verbatim>\<open>sub in s\<close>.\<close>

fun contains :: "'a list \<Rightarrow> 'a list \<Rightarrow> bool" where
  "contains sub [] = (sub = [])"
| "contains sub (c # cs) = (startswith (c # cs) sub \<or> contains sub cs)"

text \<open>\<^verbatim>\<open>str.isspace\<close> of one character, and \<^verbatim>\<open>s.strip()\<close>.\<close>

definition is_space :: "nat \<Rightarrow> bool" where
  "is_space c =
     ((9 \<le> c \<and> c \<le> 13) \<or> (28 \<le> c \<and> c \<le> 32) \<or> c = 133 \<or> c = 160 \<or> c = 5760 \<or>
      (8192 \<le> c \<and> c \<le> 8202) \<or> c = 8232 \<or> c = 8233 \<or> c = 8239 \<or> c = 8287 \<or> c = 12288)"

definition strip :: "str \<Rightarrow> str" where
  "strip s = rev (dropWhile is_space (rev (dropWhile is_space s)))"

subsection \<open>The data classes\<close>

datatype ErrorCode =
    PRECONDITION_FAILED | NO_MATCH | AMBIGUOUS_MATCH | OUT_OF_RANGE | MARKDOWN_BROKEN
  | MARKDOWN_LINT_ERROR | IO_ERROR | ENCODING_ERROR | CONFLICTING_EDITS | INVALID_OPERATION
  | INVALID_HEADING_PATH | AMBIGUOUS_HEADING | SECTION_NOT_FOUND | FRONT_MATTER_NOT_FOUND
  | FORMATTER_FAILED | INVALID_REGEX

text \<open>\<^verbatim>\<open>ErrorCode.X.value\<close>: the name of the member.\<close>

fun ErrorCode_value :: "ErrorCode \<Rightarrow> string" where
  "ErrorCode_value PRECONDITION_FAILED = ''PRECONDITION_FAILED''"
| "ErrorCode_value NO_MATCH = ''NO_MATCH''"
| "ErrorCode_value AMBIGUOUS_MATCH = ''AMBIGUOUS_MATCH''"
| "ErrorCode_value OUT_OF_RANGE = ''OUT_OF_RANGE''"
| "ErrorCode_value MARKDOWN_BROKEN = ''MARKDOWN_BROKEN''"
| "ErrorCode_value MARKDOWN_LINT_ERROR = ''MARKDOWN_LINT_ERROR''"
| "ErrorCode_value IO_ERROR = ''IO_ERROR''"
| "ErrorCode_value ENCODING_ERROR = ''ENCODING_ERROR''"
| "ErrorCode_value CONFLICTING_EDITS = ''CONFLICTING_EDITS''"
| "ErrorCode_value INVALID_OPERATION = ''INVALID_OPERATION''"
| "ErrorCode_value INVALID_HEADING_PATH = ''INVALID_HEADING_PATH''"
| "ErrorCode_value AMBIGUOUS_HEADING = ''AMBIGUOUS_HEADING''"
| "ErrorCode_value SECTION_NOT_FOUND = ''SECTION_NOT_FOUND''"
| "ErrorCode_value FRONT_MATTER_NOT_FOUND = ''FRONT_MATTER_NOT_FOUND''"
| "ErrorCode_value FORMATTER_FAILED = ''FORMATTER_FAILED''"
| "ErrorCode_value INVALID_REGEX = ''INVALID_REGEX''"

text \<open>The f-string of each diagnostic, as its template and arguments.\<close>

datatype message =
    Unknown_operation "str option"
  | Start_line_out_of_range int
  | End_line_out_of_range int
  | Expected_text_mismatch int
  | Invalid_regex_pattern
  | Section_not_found "str list"
  | Section_not_found_with_ID str
  | Unknown_scope_kind str
  | No_matches_found int
  | Found_matches nat int
  | Occurrence_out_of_range int nat
  | Invalid_occurrence
  | Requires_markdown_field
  | Heading_path_or_section_id
  | Invalid_position str
  | YAML_not_available
  | Unbalanced_code_fence nat

record Diagnostic =
  severity :: string
  code :: "string option"
  message :: message
  line :: "int option"
  col :: "int option"
  source :: "string option"

record Position =
  pos_line :: int
  pos_col :: int

record Section =
  heading_path :: "str list"
  canonical_heading_path :: "str list"
  section_id :: str
  level :: int
  start_line :: int
  end_line :: int
  heading_line :: int

record Match =
  match_line :: int
  match_col :: int
  match_text :: str
  start_pos :: Position
  end_pos :: Position

record CodeBlock =
  cb_start_line :: int
  cb_end_line :: int
  info_string :: str
  language :: "str option"

record TableInfo =
  tb_start_line :: int
  tb_end_line :: int
  tb_section :: "str list option"

text \<open>JSON and YAML values (the front matter, and the values an edit sets in it).\<close>

datatype jval =
    JNull | JBool bool | JNum int | JStr str | JList "jval list" | JObj "(str \<times> jval) list"

datatype eol_style = LF | CRLF

datatype encoding = UTF8 | UTF8_SIG | LATIN1

record MarkdownDocument =
  doc_encoding :: encoding
  doc_eol :: eol_style
  doc_content :: str
  doc_lines :: "str list"
  doc_sha256 :: str
  doc_sections :: "Section list"
  doc_code_blocks :: "CodeBlock list"
  doc_tables :: "TableInfo list"
  doc_front_matter :: "jval option"
  doc_front_matter_lines :: "(int \<times> int) option"

record MarkdownEditor =
  buffer :: "str list"
  diagnostics :: "Diagnostic list"
  matches :: "Match list"

text \<open>\<^verbatim>\<open>MarkdownEditor.__init__\<close>.\<close>

definition new_editor :: "MarkdownDocument \<Rightarrow> MarkdownEditor" where
  "new_editor doc = \<lparr>buffer = doc_lines doc, diagnostics = [], matches = []\<rparr>"

text \<open>\<^verbatim>\<open>self.diagnostics.append(Diagnostic(severity="error", code=..., message=...,
  line=..., source="editor")); return False\<close>.\<close>

definition editor_error ::
  "MarkdownEditor \<Rightarrow> string \<Rightarrow> message \<Rightarrow> int option \<Rightarrow> py_exn + (bool \<times> MarkdownEditor)" where
  "editor_error ed c m l =
     Inr (False, ed\<lparr>diagnostics := diagnostics ed @
       [\<lparr>severity = ''error'', code = Some c, message = m, line = l, col = None,
         source = Some ''editor''\<rparr>]\<rparr>)"

subsection \<open>The libraries\<close>

text \<open>A token of markdown-it: \<^verbatim>\<open>type\<close>, \<^verbatim>\<open>tag\<close>, \<^verbatim>\<open>map\<close>, \<^verbatim>\<open>content\<close>, \<^verbatim>\<open>info\<close>.\<close>

record Token =
  tok_type :: string
  tok_tag :: string
  tok_map :: "(int \<times> int) option"
  tok_content :: str
  tok_info :: str

text \<open>A compiled pattern is what \<^verbatim>\<open>finditer\<close> finds in a line: the \<open>(start, end)\<close> of
  each match, in the order \<^verbatim>\<open>finditer\<close> yields them.\<close>

type_synonym regex = "str \<Rightarrow> (nat \<times> nat) list"

record re_flags =
  IGNORECASE :: bool
  MULTILINE :: bool
  DOTALL :: bool

record env =
  sha256_hexdigest :: "byte list \<Rightarrow> str"
  markdown_it_parse :: "str \<Rightarrow> Token list"
  unicode_word :: "nat \<Rightarrow> bool"
  unicode_lower :: "str \<Rightarrow> str"
  re_escape :: "str \<Rightarrow> str"
  re_compile :: "str \<Rightarrow> re_flags \<Rightarrow> regex option"
  YAML_AVAILABLE :: bool
  yaml_safe_load :: "str \<Rightarrow> jval option"
  yaml_dump :: "(str \<times> jval) list \<Rightarrow> str"
  py_dict :: "jval \<Rightarrow> (str \<times> jval) list option"
  MDFORMAT_AVAILABLE :: bool
  mdformat_text :: "str \<Rightarrow> str option"

text \<open>
  \<^item> \<open>re_compile\<close> is \<open>None\<close> where \<^verbatim>\<open>re.compile\<close> raises \<^verbatim>\<open>re.error\<close>;
  \<^item> \<open>yaml_safe_load\<close> is \<open>None\<close> where \<^verbatim>\<open>yaml.safe_load\<close> raises \<^verbatim>\<open>yaml.YAMLError\<close>;
  \<^item> \<open>mdformat_text\<close> is \<open>None\<close> where \<^verbatim>\<open>mdformat.text\<close> raises;
  \<^item> \<open>py_dict\<close> is Python's \<^verbatim>\<open>dict(v)\<close> of a value read from YAML, as its items in
    insertion order, and \<open>None\<close> where \<^verbatim>\<open>dict\<close> raises;
  \<^item> \<open>unicode_word\<close> is the class \<^verbatim>\<open>\w\<close> of \<^verbatim>\<open>re\<close>, \<open>unicode_lower\<close> is \<^verbatim>\<open>str.lower\<close>.
\<close>

subsection \<open>UTF-8 and Latin-1\<close>

text \<open>\<^verbatim>\<open>s.encode('utf-8')\<close>: \<open>None\<close> where Python raises \<^verbatim>\<open>UnicodeEncodeError\<close> (a surrogate).\<close>

definition encode_cp :: "nat \<Rightarrow> byte list option" where
  "encode_cp c =
     (if c < 0x80 then Some [of_nat c]
      else if c < 0x800 then Some [of_nat (0xC0 + c div 64), of_nat (0x80 + c mod 64)]
      else if c < 0x10000 then
        (if 0xD800 \<le> c \<and> c \<le> 0xDFFF then None
         else Some [of_nat (0xE0 + c div 4096), of_nat (0x80 + (c div 64) mod 64),
                    of_nat (0x80 + c mod 64)])
      else if c < 0x110000 then
        Some [of_nat (0xF0 + c div 262144), of_nat (0x80 + (c div 4096) mod 64),
              of_nat (0x80 + (c div 64) mod 64), of_nat (0x80 + c mod 64)]
      else None)"

fun encode_utf8 :: "str \<Rightarrow> byte list option" where
  "encode_utf8 [] = Some []"
| "encode_utf8 (c # cs) =
     (case encode_cp c of
        None \<Rightarrow> None
      | Some bs \<Rightarrow> (case encode_utf8 cs of None \<Rightarrow> None | Some r \<Rightarrow> Some (bs @ r)))"

text \<open>\<^verbatim>\<open>b.decode('utf-8')\<close>, strict: \<open>None\<close> where Python raises \<^verbatim>\<open>UnicodeDecodeError\<close>
  (a stray or missing continuation byte, an overlong form, a surrogate, a value beyond
  U+10FFFF).\<close>

definition continuation :: "byte \<Rightarrow> bool" where
  "continuation b = (0x80 \<le> unat b \<and> unat b \<le> 0xBF)"

definition cons_cp :: "nat \<Rightarrow> str option \<Rightarrow> str option" where
  "cons_cp c r = (case r of None \<Rightarrow> None | Some cs \<Rightarrow> Some (c # cs))"

fun decode_utf8 :: "byte list \<Rightarrow> str option" where
  "decode_utf8 [] = Some []"
| "decode_utf8 (b # bs) =
     (if unat b < 0x80 then cons_cp (unat b) (decode_utf8 bs)
      else case bs of
        [] \<Rightarrow> None
      | b1 # bs1 \<Rightarrow>
         (if 0xC2 \<le> unat b \<and> unat b \<le> 0xDF then
            (if continuation b1
             then cons_cp ((unat b - 0xC0) * 64 + (unat b1 - 0x80)) (decode_utf8 bs1)
             else None)
          else case bs1 of
            [] \<Rightarrow> None
          | b2 # bs2 \<Rightarrow>
             (if 0xE0 \<le> unat b \<and> unat b \<le> 0xEF then
                (let c = (unat b - 0xE0) * 4096 + (unat b1 - 0x80) * 64 + (unat b2 - 0x80)
                 in if continuation b1 \<and> continuation b2 \<and> 0x800 \<le> c \<and>
                       \<not> (0xD800 \<le> c \<and> c \<le> 0xDFFF)
                    then cons_cp c (decode_utf8 bs2) else None)
              else case bs2 of
                [] \<Rightarrow> None
              | b3 # bs3 \<Rightarrow>
                 (if 0xF0 \<le> unat b \<and> unat b \<le> 0xF4 then
                    (let c = (unat b - 0xF0) * 262144 + (unat b1 - 0x80) * 4096 +
                             (unat b2 - 0x80) * 64 + (unat b3 - 0x80)
                     in if continuation b1 \<and> continuation b2 \<and> continuation b3 \<and>
                           0x10000 \<le> c \<and> c < 0x110000
                        then cons_cp c (decode_utf8 bs3) else None)
                  else None))))"

text \<open>\<^verbatim>\<open>b.decode('latin-1')\<close> never fails; \<^verbatim>\<open>s.encode('latin-1')\<close> raises beyond U+00FF.\<close>

definition decode_latin1 :: "byte list \<Rightarrow> str" where
  "decode_latin1 bs = map unat bs"

definition encode_latin1 :: "str \<Rightarrow> byte list option" where
  "encode_latin1 s = (if list_all (\<lambda>c. c < 256) s then Some (map of_nat s) else None)"

definition BOM :: "byte list" where
  "BOM = [0xEF, 0xBB, 0xBF]"

text \<open>\<^verbatim>\<open>s.encode(encoding)\<close> for the three encodings of a document; \<^verbatim>\<open>utf-8-sig\<close> writes
  the byte order mark first.\<close>

definition encode :: "encoding \<Rightarrow> str \<Rightarrow> byte list option" where
  "encode enc s =
     (case enc of
        UTF8 \<Rightarrow> encode_utf8 s
      | UTF8_SIG \<Rightarrow> (case encode_utf8 s of None \<Rightarrow> None | Some bs \<Rightarrow> Some (BOM @ bs))
      | LATIN1 \<Rightarrow> encode_latin1 s)"

subsection \<open>\<^verbatim>\<open>normalize_heading\<close> and \<^verbatim>\<open>create_section_id\<close>\<close>

text \<open>\<^verbatim>\<open>re.sub(r'`([^`]+)`', r'\1', text)\<close>: a backtick, one or more characters that are not
  backticks, and a backtick are replaced by the characters between the backticks.\<close>

function unwrap_inline_code :: "str \<Rightarrow> str" where
  "unwrap_inline_code [] = []"
| "unwrap_inline_code (c # cs) =
     (if c = 96 \<and> takeWhile (\<lambda>x. x \<noteq> 96) cs \<noteq> [] \<and> dropWhile (\<lambda>x. x \<noteq> 96) cs \<noteq> []
      then takeWhile (\<lambda>x. x \<noteq> 96) cs @ unwrap_inline_code (tl (dropWhile (\<lambda>x. x \<noteq> 96) cs))
      else c # unwrap_inline_code cs)"
  by pat_completeness auto
termination
proof (relation "measure length")
  fix c :: nat and cs :: str
  have "length (tl (dropWhile (\<lambda>x. x \<noteq> 96) cs)) \<le> length cs"
    using length_dropWhile_le [of "\<lambda>x. x \<noteq> 96" cs] by simp
  then show "(tl (dropWhile (\<lambda>x. x \<noteq> 96) cs), c # cs) \<in> measure length"
    by simp
qed simp_all

text \<open>\<^verbatim>\<open>re.sub(r'\s+', ' ', text)\<close>: every run of white space becomes one space.\<close>

function collapse_whitespace :: "str \<Rightarrow> str" where
  "collapse_whitespace [] = []"
| "collapse_whitespace (c # cs) =
     (if is_space c then 32 # collapse_whitespace (dropWhile is_space cs)
      else c # collapse_whitespace cs)"
  by pat_completeness auto
termination
proof (relation "measure length")
  fix c :: nat and cs :: str
  show "(dropWhile is_space cs, c # cs) \<in> measure length"
    using length_dropWhile_le [of is_space cs] by simp
qed simp_all

definition normalize_heading :: "env \<Rightarrow> str \<Rightarrow> str" where
  "normalize_heading env text =
     (let t1 = unwrap_inline_code text;
          t2 = filter (\<lambda>c. c \<noteq> 42 \<and> c \<noteq> 95 \<and> c \<noteq> 126) t1;
          t3 = filter (\<lambda>c. unicode_word env c \<or> is_space c \<or> c = 45) t2;
          t4 = collapse_whitespace t3
      in strip (unicode_lower env t4))"

text \<open>\<^verbatim>\<open>str(n)\<close> for an integer.\<close>

function digits :: "nat \<Rightarrow> str" where
  "digits n = (if n < 10 then [48 + n] else digits (n div 10) @ [48 + n mod 10])"
  by pat_completeness auto
termination
  by (relation "measure (\<lambda>n. n)") auto

definition str_of_int :: "int \<Rightarrow> str" where
  "str_of_int i = (if i < 0 then 45 # digits (nat (- i)) else digits (nat i))"

definition create_section_id :: "env \<Rightarrow> str list \<Rightarrow> int \<Rightarrow> py_exn + str" where
  "create_section_id env hp ln =
     (case encode_utf8 (join (ascii ''/'') hp @ ascii '':'' @ str_of_int ln) of
        None \<Rightarrow> Inl UnicodeError
      | Some bs \<Rightarrow> Inr (take 16 (sha256_hexdigest env bs)))"

subsection \<open>\<^verbatim>\<open>MarkdownDocument._parse_structure\<close>\<close>

text \<open>The heading stack holds \<open>(level, text, line)\<close>; its top (Python's last element) is
  the head of the list here, so the ancestors of the top are the reverse of the tail.\<close>

type_synonym heading_stack = "(int \<times> str \<times> int) list"

definition make_section ::
  "env \<Rightarrow> heading_stack \<Rightarrow> int \<times> str \<times> int \<Rightarrow> int \<Rightarrow> py_exn + Section" where
  "make_section env rest closing end_ln =
     (case closing of (closing_level, closing_text, closing_line) \<Rightarrow>
        (let path = map (\<lambda>h. fst (snd h)) (rev rest) @ [closing_text]
         in case create_section_id env path closing_line of
              Inl e \<Rightarrow> Inl e
            | Inr sid \<Rightarrow>
                Inr \<lparr>heading_path = path,
                     canonical_heading_path = map (normalize_heading env) path,
                     section_id = sid, level = closing_level, start_line = closing_line,
                     end_line = end_ln, heading_line = closing_line\<rparr>))"

text \<open>\<^verbatim>\<open>while heading_stack and heading_stack[-1][0] >= level\<close>: pop and emit a section that
  ends on the line before the new heading.\<close>

fun close_sections ::
  "env \<Rightarrow> int \<Rightarrow> int \<Rightarrow> heading_stack \<Rightarrow> Section list \<Rightarrow> py_exn + (heading_stack \<times> Section list)" where
  "close_sections env lv ln [] secs = Inr ([], secs)"
| "close_sections env lv ln (h # rest) secs =
     (if fst h \<ge> lv then
        (case make_section env rest h (ln - 1) of
           Inl e \<Rightarrow> Inl e
         | Inr s \<Rightarrow> close_sections env lv ln rest (secs @ [s]))
      else Inr (h # rest, secs))"

text \<open>\<^verbatim>\<open>while heading_stack\<close>, after the tokens: the sections still open end on the last line.\<close>

fun close_remaining ::
  "env \<Rightarrow> int \<Rightarrow> heading_stack \<Rightarrow> Section list \<Rightarrow> py_exn + Section list" where
  "close_remaining env last_ln [] secs = Inr secs"
| "close_remaining env last_ln (h # rest) secs =
     (case make_section env rest h last_ln of
        Inl e \<Rightarrow> Inl e
      | Inr s \<Rightarrow> close_remaining env last_ln rest (secs @ [s]))"

text \<open>\<^verbatim>\<open>int(token.tag[1])\<close>: the digit of \<^verbatim>\<open>h1\<close> ... \<^verbatim>\<open>h6\<close>, the tags markdown-it gives a
  heading; any other tag raises.\<close>

definition heading_level :: "string \<Rightarrow> py_exn + int" where
  "heading_level tag =
     (if tag = ''h1'' then Inr 1 else if tag = ''h2'' then Inr 2 else if tag = ''h3'' then Inr 3
      else if tag = ''h4'' then Inr 4 else if tag = ''h5'' then Inr 5
      else if tag = ''h6'' then Inr 6 else Inl TypeError)"

text \<open>\<^verbatim>\<open>token.info.split()[0] if token.info else None\<close>.\<close>

definition fence_language :: "str \<Rightarrow> py_exn + str option" where
  "fence_language info =
     (if info = [] then Inr None
      else if dropWhile is_space info = [] then Inl IndexError
      else Inr (Some (takeWhile (\<lambda>c. \<not> is_space c) (dropWhile is_space info))))"

text \<open>The section of a table: the first section, of those closed so far, that holds its
  first line.\<close>

definition table_section :: "Section list \<Rightarrow> int \<Rightarrow> str list option" where
  "table_section secs ln =
     (case filter (\<lambda>s. start_line s \<le> ln \<and> ln \<le> end_line s) secs of
        [] \<Rightarrow> None
      | s # _ \<Rightarrow> Some (heading_path s))"

record parse_state =
  ps_stack :: heading_stack
  ps_sections :: "Section list"
  ps_code_blocks :: "CodeBlock list"
  ps_tables :: "TableInfo list"

text \<open>One turn of \<^verbatim>\<open>for i, token in enumerate(tokens)\<close>; \<open>next\<close> is \<^verbatim>\<open>tokens[i + 1]\<close>, if any.\<close>

definition parse_token ::
  "env \<Rightarrow> Token \<Rightarrow> Token option \<Rightarrow> parse_state \<Rightarrow> py_exn + parse_state" where
  "parse_token env token nxt st =
     (if tok_type token = ''heading_open'' then
        (case heading_level (tok_tag token) of
           Inl e \<Rightarrow> Inl e
         | Inr lv \<Rightarrow>
            (case nxt of
               None \<Rightarrow> Inr st
             | Some n \<Rightarrow>
                (if tok_type n = ''inline'' then
                   (let ln = (case tok_map token of Some m \<Rightarrow> fst m | None \<Rightarrow> 0)
                    in case close_sections env lv ln (ps_stack st) (ps_sections st) of
                         Inl e \<Rightarrow> Inl e
                       | Inr (stack, secs) \<Rightarrow>
                           Inr (st\<lparr>ps_stack := (lv, tok_content n, ln) # stack,
                                   ps_sections := secs\<rparr>))
                 else Inr st)))
      else if tok_type token = ''fence'' then
        (case tok_map token of
           None \<Rightarrow> Inr st
         | Some m \<Rightarrow>
            (case fence_language (tok_info token) of
               Inl e \<Rightarrow> Inl e
             | Inr lang \<Rightarrow>
                Inr (st\<lparr>ps_code_blocks := ps_code_blocks st @
                  [\<lparr>cb_start_line = fst m, cb_end_line = snd m, info_string = tok_info token,
                    language = lang\<rparr>]\<rparr>)))
      else if tok_type token = ''table_open'' then
        (case tok_map token of
           None \<Rightarrow> Inr st
         | Some m \<Rightarrow>
            Inr (st\<lparr>ps_tables := ps_tables st @
              [\<lparr>tb_start_line = fst m, tb_end_line = snd m,
                tb_section = table_section (ps_sections st) (fst m)\<rparr>]\<rparr>))
      else Inr st)"

fun parse_tokens :: "env \<Rightarrow> Token list \<Rightarrow> parse_state \<Rightarrow> py_exn + parse_state" where
  "parse_tokens env [] st = Inr st"
| "parse_tokens env (t # ts) st =
     (case parse_token env t (case ts of [] \<Rightarrow> None | n # _ \<Rightarrow> Some n) st of
        Inl e \<Rightarrow> Inl e
      | Inr st' \<Rightarrow> parse_tokens env ts st')"

text \<open>\<^verbatim>\<open>_extract_front_matter\<close>: the first line among \<^verbatim>\<open>lines[1:50]\<close> whose stripped form
  is \<^verbatim>\<open>---\<close> closes the front matter.\<close>

definition extract_front_matter :: "env \<Rightarrow> str list \<Rightarrow> (jval option \<times> (int \<times> int) option)" where
  "extract_front_matter env lines =
     (if \<not> YAML_AVAILABLE env then (None, None)
      else if \<not> (hd lines = ascii ''---'' \<or> hd lines = ascii ''---'' @ [13]) then (None, None)
      else
        (case filter (\<lambda>i. strip (lines ! i) = ascii ''---'') [1 ..< min (length lines) 50] of
           [] \<Rightarrow> (None, None)
         | i # _ \<Rightarrow>
            (case yaml_safe_load env (join (ascii ''\<newline>'') (take (i - 1) (drop 1 lines))) of
               None \<Rightarrow> (None, None)
             | Some v \<Rightarrow> (Some v, Some (0, int i)))))"

definition parse_structure ::
  "env \<Rightarrow> str \<Rightarrow> str list \<Rightarrow>
   py_exn + (Section list \<times> CodeBlock list \<times> TableInfo list \<times> jval option \<times> (int \<times> int) option)" where
  "parse_structure env content lines =
     (let tokens = markdown_it_parse env content;
          fm = (if startswith content (ascii ''---\<newline>'') \<or>
                   startswith content (ascii ''---'' @ [13, 10])
                then extract_front_matter env lines else (None, None))
      in case parse_tokens env tokens
                \<lparr>ps_stack = [], ps_sections = [], ps_code_blocks = [], ps_tables = []\<rparr> of
           Inl e \<Rightarrow> Inl e
         | Inr st \<Rightarrow>
            (case close_remaining env (int (length lines) - 1) (ps_stack st) (ps_sections st) of
               Inl e \<Rightarrow> Inl e
             | Inr secs \<Rightarrow> Inr (secs, ps_code_blocks st, ps_tables st, fst fm, snd fm)))"

subsection \<open>\<^verbatim>\<open>MarkdownDocument.load\<close>\<close>

text \<open>\<open>raw\<close> is what \<^verbatim>\<open>read_bytes\<close> returned. Every exception inside \<^verbatim>\<open>load\<close> is raised
  again as an \<^verbatim>\<open>IOError\<close>.\<close>

definition decode_document :: "byte list \<Rightarrow> py_exn + (encoding \<times> str)" where
  "decode_document raw =
     (if startswith raw BOM then
        (case decode_utf8 (drop 3 raw) of
           None \<Rightarrow> Inl UnicodeError
         | Some c \<Rightarrow> Inr (UTF8_SIG, c))
      else
        (case decode_utf8 raw of
           Some c \<Rightarrow> Inr (UTF8, c)
         | None \<Rightarrow> Inr (LATIN1, decode_latin1 raw)))"

definition load :: "env \<Rightarrow> byte list \<Rightarrow> py_exn + MarkdownDocument" where
  "load env raw =
     (case decode_document raw of
        Inl e \<Rightarrow> Inl OSError
      | Inr (enc, content) \<Rightarrow>
         (let crlf = contains [13, 10] content;
              lines = (if crlf then split [13, 10] content else split [10] content)
          in case parse_structure env content lines of
               Inl e \<Rightarrow> Inl OSError
             | Inr (secs, blocks, tables, fm, fm_lines) \<Rightarrow>
                Inr \<lparr>doc_encoding = enc, doc_eol = (if crlf then CRLF else LF),
                     doc_content = content, doc_lines = lines,
                     doc_sha256 = sha256_hexdigest env raw, doc_sections = secs,
                     doc_code_blocks = blocks, doc_tables = tables, doc_front_matter = fm,
                     doc_front_matter_lines = fm_lines\<rparr>))"

subsection \<open>Lookups of the document\<close>

text \<open>\<^verbatim>\<open>get_section_by_path\<close> returns \<open>(section, error_code)\<close>.\<close>

definition section_matches :: "str list \<Rightarrow> str list \<Rightarrow> bool \<Rightarrow> Section \<Rightarrow> bool" where
  "section_matches hp normalized include_subsections s =
     (heading_path s = hp \<or> canonical_heading_path s = normalized \<or>
      (include_subsections \<and> length (canonical_heading_path s) > length normalized \<and>
       take (length normalized) (canonical_heading_path s) = normalized))"

definition get_section_by_path ::
  "env \<Rightarrow> MarkdownDocument \<Rightarrow> str list \<Rightarrow> bool \<Rightarrow> Section option \<times> string option" where
  "get_section_by_path env doc hp include_subsections =
     (case filter (section_matches hp (map (normalize_heading env) hp) include_subsections)
             (doc_sections doc) of
        [] \<Rightarrow> (None, Some (ErrorCode_value SECTION_NOT_FOUND))
      | [s] \<Rightarrow> (Some s, None)
      | _ \<Rightarrow> (None, Some (ErrorCode_value AMBIGUOUS_HEADING)))"

definition get_section_by_id :: "MarkdownDocument \<Rightarrow> str \<Rightarrow> Section option" where
  "get_section_by_id doc sid = find (\<lambda>s. section_id s = sid) (doc_sections doc)"

definition is_in_code_block :: "MarkdownDocument \<Rightarrow> int \<Rightarrow> bool" where
  "is_in_code_block doc ln =
     (\<exists>b \<in> set (doc_code_blocks doc). cb_start_line b \<le> ln \<and> ln < cb_end_line b)"

definition is_in_table :: "MarkdownDocument \<Rightarrow> int \<Rightarrow> bool" where
  "is_in_table doc ln =
     (\<exists>t \<in> set (doc_tables doc). tb_start_line t \<le> ln \<and> ln < tb_end_line t)"

subsection \<open>\<^verbatim>\<open>MarkdownDocument.validate_fences\<close>\<close>

text \<open>The fence stack has its top (Python's last element) at the head. \<open>fence_step\<close> is one
  turn of the loop over the lines.\<close>

definition is_fence_line :: "str \<Rightarrow> bool" where
  "is_fence_line ln = (startswith (strip ln) (ascii ''```'') \<or> startswith (strip ln) (ascii ''~~~''))"

definition fence_step :: "nat list \<Rightarrow> str \<Rightarrow> nat list" where
  "fence_step stack ln =
     (if is_fence_line ln then
        (let fence_char = hd (strip ln)
         in if stack = [] \<or> hd stack \<noteq> fence_char then fence_char # stack else tl stack)
      else stack)"

definition fence_stack :: "str list \<Rightarrow> nat list" where
  "fence_stack lines = foldl fence_step [] lines"

definition validate_fences :: "str list \<Rightarrow> Diagnostic list" where
  "validate_fences lines =
     (if fence_stack lines \<noteq> [] then
        [\<lparr>severity = ''error'', code = Some ''UNBALANCED_FENCE'',
          message = Unbalanced_code_fence (length (fence_stack lines)),
          line = None, col = None, source = Some ''validator''\<rparr>]
      else [])"

subsection \<open>The edits\<close>

text \<open>
  An edit is the JSON object after its keys have been read: a key the code reads with
  \<^verbatim>\<open>edit['k']\<close> is a field; a key it reads with \<^verbatim>\<open>edit.get('k')\<close> is an option; a key it
  reads with \<^verbatim>\<open>edit.get('k', default)\<close> is a field that holds the default when the key is
  absent.
\<close>

record replace_range_edit =
  rr_start_line :: int
  rr_start_col :: int
  rr_end_line :: int
  rr_end_col :: int
  rr_replacement :: str
  rr_expectedText :: "str option"

datatype occurrence = Occurrence_str str | Occurrence_int int | Occurrence_other

record scope =
  scope_kind :: str
  scope_headingPath :: "str list option"
  scope_includeSubsections :: bool

record replace_match_edit =
  rm_pattern :: str
  rm_replacement :: str
  rm_literal :: bool
  rm_flags :: str
  rm_occurrence :: occurrence
  rm_expectedMatches :: "int option"
  rm_scope :: scope
  rm_codeBlocks :: str
  rm_linksAndImages :: str
  rm_tables :: str

record replace_section_edit =
  rs_markdown :: "str option"
  rs_headingPath :: "str list option"
  rs_sectionId :: "str option"
  rs_keepSubsections :: bool

record insert_after_heading_edit =
  ia_markdown :: "str option"
  ia_headingPath :: "str list option"
  ia_sectionId :: "str option"
  ia_position :: str
  ia_ensureBlankLine :: bool

record update_front_matter_edit =
  uf_set :: "(str \<times> jval) list"
  uf_remove :: "str list"

datatype edit =
    Replace_range replace_range_edit
  | Replace_match replace_match_edit
  | Replace_section replace_section_edit
  | Insert_after_heading insert_after_heading_edit
  | Update_front_matter update_front_matter_edit
  | Other_op "str option"

text \<open>Python's truth value of an optional string or list: absent and empty are false.\<close>

definition truthy :: "'a list option \<Rightarrow> bool" where
  "truthy v = (case v of None \<Rightarrow> False | Some xs \<Rightarrow> xs \<noteq> [])"

text \<open>\<^verbatim>\<open>error_code or ErrorCode.SECTION_NOT_FOUND.value\<close>.\<close>

definition code_or_not_found :: "string option \<Rightarrow> string" where
  "code_or_not_found c = (if truthy c then the c else ErrorCode_value SECTION_NOT_FOUND)"

subsection \<open>\<^verbatim>\<open>_apply_replace_range\<close>\<close>

text \<open>The text the range spans: \<^verbatim>\<open>current_text\<close>. Both lines are indices of the buffer here.\<close>

definition range_text :: "str list \<Rightarrow> int \<Rightarrow> int \<Rightarrow> int \<Rightarrow> int \<Rightarrow> str" where
  "range_text buf sl sc el ec =
     (if sl = el then py_slice sc ec (buf ! nat sl)
      else join (ascii ''\<newline>'')
             ([py_from sc (buf ! nat sl)] @ map (\<lambda>i. buf ! i) [nat sl + 1 ..< nat el] @
              [py_upto ec (buf ! nat el)]))"

definition apply_replace_range ::
  "MarkdownEditor \<Rightarrow> replace_range_edit \<Rightarrow> py_exn + (bool \<times> MarkdownEditor)" where
  "apply_replace_range ed e =
     (let buf = buffer ed; sl = rr_start_line e; sc = rr_start_col e;
          el = rr_end_line e; ec = rr_end_col e
      in if sl < 0 \<or> sl \<ge> int (length buf) then
           editor_error ed (ErrorCode_value OUT_OF_RANGE) (Start_line_out_of_range sl) (Some sl)
         else if el < 0 \<or> el \<ge> int (length buf) then
           editor_error ed (ErrorCode_value OUT_OF_RANGE) (End_line_out_of_range el) (Some el)
         else if rr_expectedText e \<noteq> None \<and> Some (range_text buf sl sc el ec) \<noteq> rr_expectedText e then
           editor_error ed (ErrorCode_value PRECONDITION_FAILED) (Expected_text_mismatch sl) (Some sl)
         else if sl = el then
           Inr (True, ed\<lparr>buffer := buf[nat sl :=
             py_upto sc (buf ! nat sl) @ rr_replacement e @ py_from ec (buf ! nat sl)]\<rparr>)
         else
           Inr (True, ed\<lparr>buffer :=
             py_upto sl buf @
             [py_upto sc (buf ! nat sl) @ rr_replacement e @ py_from ec (buf ! nat el)] @
             py_from (el + 1) buf\<rparr>))"

subsection \<open>\<^verbatim>\<open>_apply_replace_match\<close>\<close>

text \<open>The outcome of a step that either raises, or appends a diagnostic and returns
  \<^verbatim>\<open>False\<close>, or goes on with a value.\<close>

datatype 'a step = Raised py_exn | Rejected string message | Continue 'a

definition regex_flags :: "str \<Rightarrow> re_flags" where
  "regex_flags flags_str =
     \<lparr>IGNORECASE = (105 \<in> set flags_str), MULTILINE = (109 \<in> set flags_str),
      DOTALL = (115 \<in> set flags_str)\<rparr>"

text \<open>\<^verbatim>\<open>re.compile\<close> of the pattern, escaped first when \<^verbatim>\<open>literal\<close> holds.\<close>

definition build_regex :: "env \<Rightarrow> replace_match_edit \<Rightarrow> regex step" where
  "build_regex env e =
     (case re_compile env (if rm_literal e then re_escape env (rm_pattern e) else rm_pattern e)
             (regex_flags (rm_flags e)) of
        None \<Rightarrow> Rejected (ErrorCode_value INVALID_OPERATION) Invalid_regex_pattern
      | Some rx \<Rightarrow> Continue rx)"

text \<open>\<^verbatim>\<open>start_line\<close> and \<^verbatim>\<open>end_line\<close> of the scope.\<close>

definition scope_lines ::
  "env \<Rightarrow> MarkdownDocument \<Rightarrow> str list \<Rightarrow> scope \<Rightarrow> (int \<times> int) step" where
  "scope_lines env doc buf sc =
     (if scope_kind sc = ascii ''whole_document'' then Continue (0, int (length buf) - 1)
      else if scope_kind sc = ascii ''section'' then
        (case scope_headingPath sc of
           None \<Rightarrow> Raised KeyError
         | Some hp \<Rightarrow>
            (case get_section_by_path env doc hp (scope_includeSubsections sc) of
               (None, error_code) \<Rightarrow> Rejected (code_or_not_found error_code) (Section_not_found hp)
             | (Some s, _) \<Rightarrow> Continue (start_line s, end_line s)))
      else Rejected (ErrorCode_value INVALID_OPERATION) (Unknown_scope_kind (scope_kind sc)))"

text \<open>The matches of the lines \<open>lns\<close> (\<^verbatim>\<open>range(start_line, end_line + 1)\<close>), each as
  \<open>(line_num, start, end, text)\<close>.\<close>

type_synonym found = "int \<times> nat \<times> nat \<times> str"

fun find_matches ::
  "regex \<Rightarrow> MarkdownDocument \<Rightarrow> str list \<Rightarrow> bool \<Rightarrow> bool \<Rightarrow> int list \<Rightarrow> py_exn + found list" where
  "find_matches rx doc buf no_code no_tables [] = Inr []"
| "find_matches rx doc buf no_code no_tables (n # ns) =
     (case py_index buf n of
        Inl x \<Rightarrow> Inl x
      | Inr ln \<Rightarrow>
         (case find_matches rx doc buf no_code no_tables ns of
            Inl x \<Rightarrow> Inl x
          | Inr ms \<Rightarrow>
             (if no_code \<and> is_in_code_block doc n then Inr ms
              else if no_tables \<and> is_in_table doc n then Inr ms
              else Inr (map (\<lambda>(s, e). (n, s, e, take (e - s) (drop s ln))) (rx ln) @ ms))))"

definition report_match :: "found \<Rightarrow> Match" where
  "report_match m =
     (case m of (n, s, e, t) \<Rightarrow>
        \<lparr>match_line = n + 1, match_col = int s + 1, match_text = t,
         start_pos = \<lparr>pos_line = n + 1, pos_col = int s + 1\<rparr>,
         end_pos = \<lparr>pos_line = n + 1, pos_col = int e + 1\<rparr>\<rparr>)"

text \<open>\<^verbatim>\<open>to_replace\<close>.\<close>

definition to_replace :: "occurrence \<Rightarrow> found list \<Rightarrow> found list step" where
  "to_replace occ ms =
     (case occ of
        Occurrence_str s \<Rightarrow>
          (if s = ascii ''all'' then Continue (rev ms)
           else Rejected (ErrorCode_value INVALID_OPERATION) Invalid_occurrence)
      | Occurrence_int k \<Rightarrow>
          (if k < 1 \<or> k > int (length ms)
           then Rejected (ErrorCode_value OUT_OF_RANGE) (Occurrence_out_of_range k (length ms))
           else Continue [ms ! nat (k - 1)])
      | Occurrence_other \<Rightarrow> Rejected (ErrorCode_value INVALID_OPERATION) Invalid_occurrence)"

text \<open>One turn of the loop over \<^verbatim>\<open>to_replace\<close>:
  \<^verbatim>\<open>self.buffer[line_num] = line[:match.start()] + replacement + line[match.end():]\<close>.\<close>

definition replace_one :: "str \<Rightarrow> str list \<Rightarrow> found \<Rightarrow> py_exn + str list" where
  "replace_one replacement buf m =
     (case m of (n, s, e, t) \<Rightarrow>
        (case py_index buf n of
           Inl x \<Rightarrow> Inl x
         | Inr ln \<Rightarrow>
            Inr (buf[nat (if n < 0 then int (length buf) + n else n) :=
                   take s ln @ replacement @ drop e ln])))"

fun replace_each :: "str \<Rightarrow> str list \<Rightarrow> found list \<Rightarrow> py_exn + str list" where
  "replace_each replacement buf [] = Inr buf"
| "replace_each replacement buf (m # ms) =
     (case replace_one replacement buf m of
        Inl x \<Rightarrow> Inl x
      | Inr buf' \<Rightarrow> replace_each replacement buf' ms)"

definition apply_replace_match ::
  "env \<Rightarrow> MarkdownDocument \<Rightarrow> MarkdownEditor \<Rightarrow> replace_match_edit \<Rightarrow>
   py_exn + (bool \<times> MarkdownEditor)" where
  "apply_replace_match env doc ed e =
     (case build_regex env e of
        Raised x \<Rightarrow> Inl x
      | Rejected c m \<Rightarrow> editor_error ed c m None
      | Continue rx \<Rightarrow>
     (case scope_lines env doc (buffer ed) (rm_scope e) of
        Raised x \<Rightarrow> Inl x
      | Rejected c m \<Rightarrow> editor_error ed c m None
      | Continue (lo, hi) \<Rightarrow>
     (case find_matches rx doc (buffer ed) (rm_codeBlocks e = ascii ''exclude'')
             (rm_tables e = ascii ''exclude'') [lo .. hi] of
        Inl x \<Rightarrow> Inl x
      | Inr ms \<Rightarrow>
         (if rm_expectedMatches e \<noteq> None \<and> Some (int (length ms)) \<noteq> rm_expectedMatches e then
            (if length ms = 0
             then editor_error ed (ErrorCode_value NO_MATCH)
                    (No_matches_found (the (rm_expectedMatches e))) None
             else editor_error ed (ErrorCode_value AMBIGUOUS_MATCH)
                    (Found_matches (length ms) (the (rm_expectedMatches e))) None)
          else
            (let ed1 = ed\<lparr>matches := matches ed @ map report_match ms\<rparr>
             in case to_replace (rm_occurrence e) ms of
                  Raised x \<Rightarrow> Inl x
                | Rejected c m \<Rightarrow> editor_error ed1 c m None
                | Continue todo \<Rightarrow>
                   (case replace_each (rm_replacement e) (buffer ed1) todo of
                      Inl x \<Rightarrow> Inl x
                    | Inr buf \<Rightarrow> Inr (True, ed1\<lparr>buffer := buf\<rparr>)))))))"

subsection \<open>\<^verbatim>\<open>_apply_replace_section\<close> and \<^verbatim>\<open>_apply_insert_after_heading\<close>\<close>

text \<open>\<^verbatim>\<open># Get section by ID or path\<close>, the same in both operations.\<close>

definition resolve_section ::
  "env \<Rightarrow> MarkdownDocument \<Rightarrow> str list option \<Rightarrow> str option \<Rightarrow> Section step" where
  "resolve_section env doc hp sid =
     (if truthy sid then
        (case get_section_by_id doc (the sid) of
           None \<Rightarrow> Rejected (ErrorCode_value SECTION_NOT_FOUND) (Section_not_found_with_ID (the sid))
         | Some s \<Rightarrow> Continue s)
      else if truthy hp then
        (case get_section_by_path env doc (the hp) False of
           (None, error_code) \<Rightarrow> Rejected (code_or_not_found error_code) (Section_not_found (the hp))
         | (Some s, _) \<Rightarrow> Continue s)
      else Rejected (ErrorCode_value INVALID_OPERATION) Heading_path_or_section_id)"

text \<open>\<^verbatim>\<open>subsection_start\<close>: the \<^verbatim>\<open>start_line\<close> of the first section of \<^verbatim>\<open>self.doc.sections\<close>
  whose heading path extends the \<^verbatim>\<open>headingPath\<close> of the edit and that starts below the
  heading (\<open>is_subsection\<close> is the test of the loop); \<^verbatim>\<open>None\<close> when the edit has no
  \<^verbatim>\<open>headingPath\<close>.\<close>

definition is_subsection :: "str list \<Rightarrow> Section \<Rightarrow> Section \<Rightarrow> bool" where
  "is_subsection hp sec s =
     (length (heading_path s) > length hp \<and> take (length hp) (heading_path s) = hp \<and>
      start_line s > heading_line sec)"

definition subsection_start ::
  "MarkdownDocument \<Rightarrow> str list option \<Rightarrow> Section \<Rightarrow> int option" where
  "subsection_start doc hp sec =
     (if truthy hp then
        (case find (is_subsection (the hp) sec) (doc_sections doc) of
           None \<Rightarrow> None
         | Some s \<Rightarrow> Some (start_line s))
      else None)"

text \<open>\<^verbatim>\<open>content_end\<close>. The test \<^verbatim>\<open>if subsection_start\<close> is false for \<^verbatim>\<open>None\<close> and for 0.\<close>

definition content_end :: "MarkdownDocument \<Rightarrow> replace_section_edit \<Rightarrow> Section \<Rightarrow> int" where
  "content_end doc e sec =
     (if rs_keepSubsections e then
        (case subsection_start doc (rs_headingPath e) sec of
           None \<Rightarrow> end_line sec
         | Some st \<Rightarrow> if st \<noteq> 0 then st - 1 else end_line sec)
      else end_line sec)"

text \<open>\<^verbatim>\<open>has_heading\<close>.\<close>

definition has_heading :: "str list \<Rightarrow> bool" where
  "has_heading new_lines = (new_lines \<noteq> [] \<and> startswith (strip (hd new_lines)) (ascii ''#''))"

definition apply_replace_section ::
  "env \<Rightarrow> MarkdownDocument \<Rightarrow> MarkdownEditor \<Rightarrow> replace_section_edit \<Rightarrow>
   py_exn + (bool \<times> MarkdownEditor)" where
  "apply_replace_section env doc ed e =
     (case rs_markdown e of
        None \<Rightarrow> editor_error ed (ErrorCode_value INVALID_OPERATION) Requires_markdown_field None
      | Some markdown \<Rightarrow>
     (case resolve_section env doc (rs_headingPath e) (rs_sectionId e) of
        Raised x \<Rightarrow> Inl x
      | Rejected c m \<Rightarrow> editor_error ed c m None
      | Continue sec \<Rightarrow>
         (let stop = content_end doc e sec; new_lines = split [10] markdown
          in if \<not> has_heading new_lines then
               (case py_index (buffer ed) (heading_line sec) of
                  Inl x \<Rightarrow> Inl x
                | Inr preserved_heading \<Rightarrow>
                   Inr (True, ed\<lparr>buffer :=
                     py_upto (heading_line sec + 1) (buffer ed) @ new_lines @
                     py_from (stop + 1) (buffer ed)\<rparr>))
             else
               Inr (True, ed\<lparr>buffer :=
                 py_upto (heading_line sec) (buffer ed) @ new_lines @
                 py_from (stop + 1) (buffer ed)\<rparr>))))"

definition insert_line :: "str \<Rightarrow> Section \<Rightarrow> int step" where
  "insert_line position sec =
     (if position = ascii ''afterHeading'' then Continue (heading_line sec + 1)
      else if position = ascii ''start'' then Continue (heading_line sec + 1)
      else if position = ascii ''end'' then Continue (end_line sec + 1)
      else Rejected (ErrorCode_value INVALID_OPERATION) (Invalid_position position))"

definition apply_insert_after_heading ::
  "env \<Rightarrow> MarkdownDocument \<Rightarrow> MarkdownEditor \<Rightarrow> insert_after_heading_edit \<Rightarrow>
   py_exn + (bool \<times> MarkdownEditor)" where
  "apply_insert_after_heading env doc ed e =
     (case ia_markdown e of
        None \<Rightarrow> editor_error ed (ErrorCode_value INVALID_OPERATION) Requires_markdown_field None
      | Some markdown \<Rightarrow>
     (case resolve_section env doc (ia_headingPath e) (ia_sectionId e) of
        Raised x \<Rightarrow> Inl x
      | Rejected c m \<Rightarrow> editor_error ed c m None
      | Continue sec \<Rightarrow>
     (case insert_line (ia_position e) sec of
        Raised x \<Rightarrow> Inl x
      | Rejected c m \<Rightarrow> editor_error ed c m None
      | Continue at \<Rightarrow>
         (let new_lines = split [10] markdown
          in if ia_ensureBlankLine e \<and> at < int (length (buffer ed)) then
               (case py_index (buffer ed) at of
                  Inl x \<Rightarrow> Inl x
                | Inr ln \<Rightarrow>
                   Inr (True, ed\<lparr>buffer :=
                     py_upto at (buffer ed) @
                     (if strip ln \<noteq> [] then new_lines @ [[]] else new_lines) @
                     py_from at (buffer ed)\<rparr>))
             else
               Inr (True, ed\<lparr>buffer :=
                 py_upto at (buffer ed) @ new_lines @ py_from at (buffer ed)\<rparr>)))))"

subsection \<open>\<^verbatim>\<open>_apply_update_front_matter\<close>\<close>

text \<open>The front matter as a Python dictionary: an association list in insertion order.
  \<^verbatim>\<open>dict(self.doc.front_matter) if self.doc.front_matter else {}\<close>: a value that is false
  gives the empty dictionary; of the others, \<^verbatim>\<open>dict\<close> gives the items or raises.\<close>

definition jval_truthy :: "jval \<Rightarrow> bool" where
  "jval_truthy v =
     (case v of JNull \<Rightarrow> False | JBool b \<Rightarrow> b | JNum n \<Rightarrow> n \<noteq> 0 | JStr s \<Rightarrow> s \<noteq> []
      | JList xs \<Rightarrow> xs \<noteq> [] | JObj kvs \<Rightarrow> kvs \<noteq> [])"

definition front_matter_dict :: "env \<Rightarrow> jval option \<Rightarrow> py_exn + (str \<times> jval) list" where
  "front_matter_dict env fm =
     (case fm of
        None \<Rightarrow> Inr []
      | Some v \<Rightarrow>
         (if \<not> jval_truthy v then Inr []
          else case py_dict env v of Some kvs \<Rightarrow> Inr kvs | None \<Rightarrow> Inl TypeError))"

text \<open>\<^verbatim>\<open>fm[key] = value\<close> keeps the place of a key that is there and appends a new one;
  \<^verbatim>\<open>fm.pop(key, None)\<close>.\<close>

fun dict_set :: "(str \<times> jval) list \<Rightarrow> str \<Rightarrow> jval \<Rightarrow> (str \<times> jval) list" where
  "dict_set [] k v = [(k, v)]"
| "dict_set ((k', v') # kvs) k v = (if k' = k then (k, v) # kvs else (k', v') # dict_set kvs k v)"

definition dict_pop :: "(str \<times> jval) list \<Rightarrow> str \<Rightarrow> (str \<times> jval) list" where
  "dict_pop kvs k = filter (\<lambda>kv. fst kv \<noteq> k) kvs"

text \<open>\<^verbatim>\<open>fm_text.rstrip('\n')\<close>.\<close>

definition rstrip_newlines :: "str \<Rightarrow> str" where
  "rstrip_newlines s = rev (dropWhile (\<lambda>c. c = 10) (rev s))"

definition apply_update_front_matter ::
  "env \<Rightarrow> MarkdownDocument \<Rightarrow> MarkdownEditor \<Rightarrow> update_front_matter_edit \<Rightarrow>
   py_exn + (bool \<times> MarkdownEditor)" where
  "apply_update_front_matter env doc ed e =
     (if \<not> YAML_AVAILABLE env then
        editor_error ed (ErrorCode_value INVALID_OPERATION) YAML_not_available None
      else
        (case front_matter_dict env (doc_front_matter doc) of
           Inl x \<Rightarrow> Inl x
         | Inr fm0 \<Rightarrow>
            (let fm1 = foldl (\<lambda>fm kv. dict_set fm (fst kv) (snd kv)) fm0 (uf_set e);
                 fm2 = foldl dict_pop fm1 (uf_remove e);
                 fm_lines = split [10] (rstrip_newlines (yaml_dump env fm2))
             in case doc_front_matter_lines doc of
                  Some (first, last_ln) \<Rightarrow>
                    Inr (True, ed\<lparr>buffer :=
                      [ascii ''---''] @ fm_lines @ [ascii ''---''] @
                      py_from (last_ln + 1) (buffer ed)\<rparr>)
                | None \<Rightarrow>
                    Inr (True, ed\<lparr>buffer :=
                      [ascii ''---''] @ fm_lines @ [ascii ''---'', []] @ buffer ed\<rparr>))))"

subsection \<open>\<^verbatim>\<open>apply_edit\<close> and \<^verbatim>\<open>get_content\<close>\<close>

definition apply_edit ::
  "env \<Rightarrow> MarkdownDocument \<Rightarrow> MarkdownEditor \<Rightarrow> edit \<Rightarrow> py_exn + (bool \<times> MarkdownEditor)" where
  "apply_edit env doc ed e =
     (case e of
        Replace_range r \<Rightarrow> apply_replace_range ed r
      | Replace_match r \<Rightarrow> apply_replace_match env doc ed r
      | Replace_section r \<Rightarrow> apply_replace_section env doc ed r
      | Insert_after_heading r \<Rightarrow> apply_insert_after_heading env doc ed r
      | Update_front_matter r \<Rightarrow> apply_update_front_matter env doc ed r
      | Other_op op \<Rightarrow>
          editor_error ed (ErrorCode_value INVALID_OPERATION) (Unknown_operation op) None)"

definition eol_str :: "eol_style \<Rightarrow> str" where
  "eol_str e = (case e of CRLF \<Rightarrow> [13, 10] | LF \<Rightarrow> [10])"

definition get_content :: "MarkdownDocument \<Rightarrow> MarkdownEditor \<Rightarrow> str" where
  "get_content doc ed = join (eol_str (doc_eol doc)) (buffer ed)"

subsection \<open>\<^verbatim>\<open>md_apply\<close>\<close>

text \<open>
  The file is \<open>Some bytes\<close>, or \<open>None\<close> when \<^verbatim>\<open>read_bytes\<close> raises. \<open>md_apply\<close> returns the
  result dictionary and the file after the call; \<^verbatim>\<open>write_bytes\<close> is taken to succeed.
  The result keeps the keys \<^verbatim>\<open>ok\<close>, \<^verbatim>\<open>errorCode\<close>, \<^verbatim>\<open>contentSha256\<close>, \<^verbatim>\<open>editsApplied\<close>,
  \<^verbatim>\<open>matches\<close> and \<^verbatim>\<open>diagnostics\<close> (empty where the dictionary has no such key); the
  texts (\<^verbatim>\<open>error\<close>, \<^verbatim>\<open>diff\<close>, \<^verbatim>\<open>traceback\<close>) and the echoed arguments are left out.
  The code never reads its argument \<^verbatim>\<open>preserve_eol\<close>.
\<close>

record apply_options =
  atomic :: bool
  dry_run :: bool
  format_mode :: str
  preserve_eol :: bool
  preserve_encoding :: bool
  ensure_final_newline :: bool

record apply_result =
  ok :: bool
  errorCode :: "string option"
  contentSha256 :: "str option"
  editsApplied :: "int option"
  result_matches :: "Match list"
  result_diagnostics :: "Diagnostic list"

definition failure :: "ErrorCode \<Rightarrow> Diagnostic list \<Rightarrow> apply_result" where
  "failure c ds =
     \<lparr>ok = False, errorCode = Some (ErrorCode_value c), contentSha256 = None,
      editsApplied = None, result_matches = [], result_diagnostics = ds\<rparr>"

text \<open>The loop over the edits: it ends by an exception, by the \<^verbatim>\<open>return\<close> of atomic mode
  at the edit of index \<open>i\<close>, or after the last edit with \<^verbatim>\<open>edits_applied\<close>.\<close>

datatype loop_end =
    Loop_raised py_exn
  | Loop_failed nat MarkdownEditor
  | Loop_done MarkdownEditor int

fun apply_edits ::
  "env \<Rightarrow> MarkdownDocument \<Rightarrow> bool \<Rightarrow> MarkdownEditor \<Rightarrow> nat \<Rightarrow> int \<Rightarrow> edit list \<Rightarrow> loop_end" where
  "apply_edits env doc atom ed i applied [] = Loop_done ed applied"
| "apply_edits env doc atom ed i applied (e # es) =
     (case apply_edit env doc ed e of
        Inl x \<Rightarrow> Loop_raised x
      | Inr (success, ed') \<Rightarrow>
         (if \<not> success then
            (if atom then Loop_failed i ed'
             else apply_edits env doc atom ed' (Suc i) applied es)
          else apply_edits env doc atom ed' (Suc i) (applied + 1) es))"

text \<open>\<^verbatim>\<open># Apply formatting if requested\<close>: \<open>None\<close> is the \<^verbatim>\<open>return\<close> of atomic mode.\<close>

definition format_content :: "env \<Rightarrow> apply_options \<Rightarrow> str \<Rightarrow> str option" where
  "format_content env opts new_content =
     (if format_mode opts = ascii ''mdformat'' \<and> MDFORMAT_AVAILABLE env then
        (case mdformat_text env new_content of
           Some formatted \<Rightarrow> Some formatted
         | None \<Rightarrow> if atomic opts then None else Some new_content)
      else Some new_content)"

text \<open>\<^verbatim>\<open># Ensure final newline if requested\<close>.\<close>

definition final_newline :: "MarkdownDocument \<Rightarrow> apply_options \<Rightarrow> str \<Rightarrow> str" where
  "final_newline doc opts new_content =
     (if ensure_final_newline opts \<and> \<not> endswith new_content [10]
      then new_content @ (if doc_eol doc = LF then [10] else [13, 10])
      else new_content)"

definition md_apply ::
  "env \<Rightarrow> byte list option \<Rightarrow> str \<Rightarrow> edit list \<Rightarrow> apply_options \<Rightarrow>
   apply_result \<times> byte list option" where
  "md_apply env file base_sha256 edits opts =
     (case file of
        None \<Rightarrow> (failure IO_ERROR [], file)
      | Some raw \<Rightarrow>
     (case load env raw of
        Inl x \<Rightarrow> (failure IO_ERROR [], file)
      | Inr doc \<Rightarrow>
         (if doc_sha256 doc \<noteq> base_sha256 then (failure PRECONDITION_FAILED [], file)
          else
            (case apply_edits env doc (atomic opts) (new_editor doc) 0 0 edits of
               Loop_raised x \<Rightarrow> (failure IO_ERROR [], file)
             | Loop_failed i ed \<Rightarrow> (failure CONFLICTING_EDITS (diagnostics ed), file)
             | Loop_done ed applied \<Rightarrow>
                (case format_content env opts (get_content doc ed) of
                   None \<Rightarrow> (failure MARKDOWN_BROKEN [], file)
                 | Some formatted \<Rightarrow>
                    (case encode (if preserve_encoding opts then doc_encoding doc else UTF8)
                            (final_newline doc opts formatted) of
                       None \<Rightarrow> (failure IO_ERROR [], file)
                     | Some new_bytes \<Rightarrow>
                        (\<lparr>ok = True, errorCode = None,
                          contentSha256 = Some (sha256_hexdigest env new_bytes),
                          editsApplied = Some applied, result_matches = matches ed,
                          result_diagnostics = diagnostics ed\<rparr>,
                         if dry_run opts then file else Some new_bytes)))))))"

subsection \<open>What the specification says, and what \<^verbatim>\<open>finditer\<close> promises\<close>

text \<open>The spec's fence validator (section 4.7): backticks and tildes are counted apart, a
  fence line opens or closes a fence of its own character in turn, and every fence left
  open gives one diagnostic. \<open>spec_unclosed_fences\<close> is the number of fences left open.\<close>

definition fence_lines_of :: "nat \<Rightarrow> str list \<Rightarrow> str list" where
  "fence_lines_of c lines = filter (\<lambda>ln. is_fence_line ln \<and> hd (strip ln) = c) lines"

definition spec_unclosed_fences :: "str list \<Rightarrow> nat" where
  "spec_unclosed_fences lines =
     length (fence_lines_of 96 lines) mod 2 + length (fence_lines_of 126 lines) mod 2"

text \<open>The spec's heading-preservation rule (section 4.4): the first non-empty line of the
  markdown decides whether the heading is replaced.\<close>

definition spec_has_heading :: "str list \<Rightarrow> bool" where
  "spec_has_heading new_lines =
     (case filter (\<lambda>ln. ln \<noteq> []) new_lines of
        [] \<Rightarrow> False
      | ln # _ \<Rightarrow> startswith (strip ln) (ascii ''#''))"

text \<open>The spec's reverse-order property (section 8, item 8): every match of a line holds
  the replacement, and the text between the matches is the line's. \<open>substitute_from p\<close>
  rewrites the line from column \<open>p\<close> on.\<close>

fun substitute_from :: "nat \<Rightarrow> str \<Rightarrow> str \<Rightarrow> (nat \<times> nat) list \<Rightarrow> str" where
  "substitute_from p replacement ln [] = drop p ln"
| "substitute_from p replacement ln ((s, e) # spans) =
     take (s - p) (drop p ln) @ replacement @ substitute_from e replacement ln spans"

definition substitute_all :: "str \<Rightarrow> str \<Rightarrow> (nat \<times> nat) list \<Rightarrow> str" where
  "substitute_all replacement ln spans = substitute_from 0 replacement ln spans"

text \<open>What \<^verbatim>\<open>finditer\<close> promises of its matches in a line of length \<open>n\<close>: each lies in the
  line, and each starts where the one before it ended, or later.\<close>

fun spans_from :: "nat \<Rightarrow> nat \<Rightarrow> (nat \<times> nat) list \<Rightarrow> bool" where
  "spans_from p n [] = True"
| "spans_from p n ((s, e) # spans) = (p \<le> s \<and> s \<le> e \<and> e \<le> n \<and> spans_from e n spans)"

definition finditer_ok :: "regex \<Rightarrow> str \<Rightarrow> bool" where
  "finditer_ok rx ln = spans_from 0 (length ln) (rx ln)"


subsection \<open>Stand-ins for the libraries, for concrete runs\<close>

text \<open>
  The theorems below hold for every \<open>env\<close>. A run on a concrete file needs one; \<open>stub_env\<close>
  is small enough to evaluate:
  \<^item> the digest of some bytes is the bytes themselves, as numbers;
  \<^item> the tokenizer knows ATX headings only (\<^verbatim>\<open>#\<close> to \<^verbatim>\<open>######\<close>, then a space or the end of
    the line) and gives the three tokens markdown-it gives for each;
  \<^item> a pattern is a literal text in which a backslash escapes the next character; an
    unescaped parenthesis or a trailing backslash does not compile;
  \<^item> word characters and lower case are those of ASCII; yaml and mdformat are not installed.
\<close>

definition stub_word :: "nat \<Rightarrow> bool" where
  "stub_word c = ((48 \<le> c \<and> c \<le> 57) \<or> (65 \<le> c \<and> c \<le> 90) \<or> (97 \<le> c \<and> c \<le> 122) \<or> c = 95)"

definition stub_lower :: "str \<Rightarrow> str" where
  "stub_lower s = map (\<lambda>c. if 65 \<le> c \<and> c \<le> 90 then c + 32 else c) s"

definition stub_escape :: "str \<Rightarrow> str" where
  "stub_escape s = concat (map (\<lambda>c. if stub_word c then [c] else [92, c]) s)"

fun stub_unescape :: "str \<Rightarrow> str option" where
  "stub_unescape [] = Some []"
| "stub_unescape [c] = (if c = 92 \<or> c = 40 \<or> c = 41 then None else Some [c])"
| "stub_unescape (c # d # cs) =
     (if c = 92 then (case stub_unescape cs of None \<Rightarrow> None | Some r \<Rightarrow> Some (d # r))
      else if c = 40 \<or> c = 41 then None
      else (case stub_unescape (d # cs) of None \<Rightarrow> None | Some r \<Rightarrow> Some (c # r)))"

function stub_finditer :: "str \<Rightarrow> nat \<Rightarrow> str \<Rightarrow> (nat \<times> nat) list" where
  "stub_finditer pat i s =
     (if s = [] then (if pat = [] then [(i, i)] else [])
      else if pat = [] then (i, i) # stub_finditer pat (Suc i) (tl s)
      else if startswith s pat
        then (i, i + length pat) # stub_finditer pat (i + length pat) (drop (length pat) s)
      else stub_finditer pat (Suc i) (tl s))"
  by pat_completeness auto
termination
  by (relation "measure (\<lambda>(pat, i, s). length s)") auto

definition stub_compile :: "str \<Rightarrow> re_flags \<Rightarrow> regex option" where
  "stub_compile pat fl =
     (case stub_unescape pat of None \<Rightarrow> None | Some lit \<Rightarrow> Some (stub_finditer lit 0))"

definition stub_heading_tokens :: "nat \<Rightarrow> str \<Rightarrow> Token list" where
  "stub_heading_tokens i ln =
     (let k = length (takeWhile (\<lambda>c. c = 35) ln)
      in if 1 \<le> k \<and> k \<le> 6 \<and> (length ln = k \<or> ln ! k = 32) then
           [\<lparr>tok_type = ''heading_open'', tok_tag = [''h1'', ''h2'', ''h3'', ''h4'', ''h5'', ''h6''] ! (k - 1),
             tok_map = Some (int i, int i + 1), tok_content = [], tok_info = []\<rparr>,
            \<lparr>tok_type = ''inline'', tok_tag = [], tok_map = Some (int i, int i + 1),
             tok_content = strip (drop k ln), tok_info = []\<rparr>,
            \<lparr>tok_type = ''heading_close'', tok_tag = [''h1'', ''h2'', ''h3'', ''h4'', ''h5'', ''h6''] ! (k - 1),
             tok_map = None, tok_content = [], tok_info = []\<rparr>]
         else [])"

definition stub_parse :: "str \<Rightarrow> Token list" where
  "stub_parse content =
     concat (map (\<lambda>(i, ln). stub_heading_tokens i ln)
               (zip [0 ..< length (split [10] content)] (split [10] content)))"

definition stub_env :: env where
  "stub_env =
     \<lparr>sha256_hexdigest = (\<lambda>bs. map unat bs),
      markdown_it_parse = stub_parse,
      unicode_word = stub_word,
      unicode_lower = stub_lower,
      re_escape = stub_escape,
      re_compile = stub_compile,
      YAML_AVAILABLE = False,
      yaml_safe_load = (\<lambda>s. None),
      yaml_dump = (\<lambda>kvs. []),
      py_dict = (\<lambda>v. case v of JObj kvs \<Rightarrow> Some kvs | _ \<Rightarrow> None),
      MDFORMAT_AVAILABLE = False,
      mdformat_text = (\<lambda>s. None)\<rparr>"

text \<open>A file given as ASCII text.\<close>

definition bytes_of :: "string \<Rightarrow> byte list" where
  "bytes_of cs = map of_char cs"

definition default_options :: apply_options where
  "default_options =
     \<lparr>atomic = True, dry_run = False, format_mode = ascii ''none'', preserve_eol = True,
      preserve_encoding = True, ensure_final_newline = True\<rparr>"

subsection \<open>Concrete documents\<close>

text \<open>The file \<^verbatim>\<open>"# A\nold\n## B\nx"\<close> as \<open>load stub_env\<close> gives it: the section of \<^verbatim>\<open>## B\<close>
  is closed first, so it comes first in \<^verbatim>\<open>sections\<close>.\<close>

definition section_AB :: Section where
  "section_AB =
     \<lparr>heading_path = [ascii ''A'', ascii ''B''],
      canonical_heading_path = [ascii ''a'', ascii ''b''],
      section_id = ascii ''A/B:2'', level = 2, start_line = 2, end_line = 3,
      heading_line = 2\<rparr>"

definition section_A :: Section where
  "section_A =
     \<lparr>heading_path = [ascii ''A''], canonical_heading_path = [ascii ''a''],
      section_id = ascii ''A:0'', level = 1, start_line = 0, end_line = 3, heading_line = 0\<rparr>"

definition doc_AB :: MarkdownDocument where
  "doc_AB =
     \<lparr>doc_encoding = UTF8, doc_eol = LF,
      doc_content = ascii ''# A\<newline>old\<newline>## B\<newline>x'',
      doc_lines = [ascii ''# A'', ascii ''old'', ascii ''## B'', ascii ''x''],
      doc_sha256 = ascii ''# A\<newline>old\<newline>## B\<newline>x'',
      doc_sections = [section_AB, section_A],
      doc_code_blocks = [], doc_tables = [], doc_front_matter = None,
      doc_front_matter_lines = None\<rparr>"

text \<open>The file \<^verbatim>\<open>"x\n# H\ny"\<close>.\<close>

definition section_H :: Section where
  "section_H =
     \<lparr>heading_path = [ascii ''H''], canonical_heading_path = [ascii ''h''],
      section_id = ascii ''H:1'', level = 1, start_line = 1, end_line = 2, heading_line = 1\<rparr>"

definition doc_xHy :: MarkdownDocument where
  "doc_xHy =
     \<lparr>doc_encoding = UTF8, doc_eol = LF,
      doc_content = ascii ''x\<newline># H\<newline>y'',
      doc_lines = [ascii ''x'', ascii ''# H'', ascii ''y''],
      doc_sha256 = ascii ''x\<newline># H\<newline>y'',
      doc_sections = [section_H],
      doc_code_blocks = [], doc_tables = [], doc_front_matter = None,
      doc_front_matter_lines = None\<rparr>"

section \<open>Properties\<close>

subsection \<open>Runs of the stand-ins on the concrete files\<close>

lemma stub_parse_AB:
  "stub_parse (ascii ''# A\<newline>old\<newline>## B\<newline>x'') =
     [\<lparr>tok_type = ''heading_open'', tok_tag = ''h1'', tok_map = Some (0, 1), tok_content = [],
       tok_info = []\<rparr>,
      \<lparr>tok_type = ''inline'', tok_tag = [], tok_map = Some (0, 1), tok_content = ascii ''A'',
       tok_info = []\<rparr>,
      \<lparr>tok_type = ''heading_close'', tok_tag = ''h1'', tok_map = None, tok_content = [],
       tok_info = []\<rparr>,
      \<lparr>tok_type = ''heading_open'', tok_tag = ''h2'', tok_map = Some (2, 3), tok_content = [],
       tok_info = []\<rparr>,
      \<lparr>tok_type = ''inline'', tok_tag = [], tok_map = Some (2, 3), tok_content = ascii ''B'',
       tok_info = []\<rparr>,
      \<lparr>tok_type = ''heading_close'', tok_tag = ''h2'', tok_map = None, tok_content = [],
       tok_info = []\<rparr>]"
  by (simp add: stub_parse_def stub_heading_tokens_def split_def ascii_def startswith_def
      strip_def is_space_def Let_def upt_rec)

lemma parse_structure_AB:
  "parse_structure stub_env (ascii ''# A\<newline>old\<newline>## B\<newline>x'')
     [ascii ''# A'', ascii ''old'', ascii ''## B'', ascii ''x''] =
   Inr (doc_sections doc_AB, [], [], None, None)"
  unfolding parse_structure_def
  apply (simp add: stub_env_def stub_parse_AB)
  apply (simp add: parse_token_def heading_level_def make_section_def create_section_id_def
      normalize_heading_def stub_env_def ascii_def str_of_int_def encode_cp_def strip_def
      is_space_def stub_word_def stub_lower_def startswith_def doc_AB_def section_AB_def
      section_A_def)
  done

lemma load_AB: "load stub_env (bytes_of ''# A\<newline>old\<newline>## B\<newline>x'') = Inr doc_AB"
proof -
  have d: "decode_document (bytes_of ''# A\<newline>old\<newline>## B\<newline>x'') =
             Inr (UTF8, ascii ''# A\<newline>old\<newline>## B\<newline>x'')"
    by (simp add: decode_document_def bytes_of_def ascii_def cons_cp_def BOM_def startswith_def)
  have c: "\<not> contains [13, 10] (ascii ''# A\<newline>old\<newline>## B\<newline>x'')"
    by (simp add: ascii_def startswith_def)
  have s: "split [10] (ascii ''# A\<newline>old\<newline>## B\<newline>x'') =
             [ascii ''# A'', ascii ''old'', ascii ''## B'', ascii ''x'']"
    by (simp add: split_def ascii_def startswith_def)
  have h: "sha256_hexdigest stub_env (bytes_of ''# A\<newline>old\<newline>## B\<newline>x'') =
             ascii ''# A\<newline>old\<newline>## B\<newline>x''"
    by (simp add: stub_env_def bytes_of_def ascii_def)
  show ?thesis
    unfolding load_def by (simp add: d c s h parse_structure_AB doc_AB_def)
qed




subsection \<open>The hash gate\<close>




subsection \<open>\<^verbatim>\<open>replace_range\<close>\<close>

text \<open>
  C3. The positions of a \<^verbatim>\<open>replace_range\<close> edit are not converted: the code indexes the
  buffer with them as they come. On the buffer \<^verbatim>\<open>["ab", "cd"]\<close>, the range from (1, 1) to
  (1, 2) rewrites the second character of the second line (1-based, it is the first
  character of the first line); columns 7 to 9 of the two-character line 0 are accepted and
  append to the line; and line 2, the last line in 1-based terms, is \<^verbatim>\<open>OUT_OF_RANGE\<close>.
\<close>

theorem replace_range_positions_not_converted:
  "apply_replace_range
     \<lparr>buffer = [ascii ''ab'', ascii ''cd''], diagnostics = [], matches = []\<rparr>
     \<lparr>rr_start_line = 1, rr_start_col = 1, rr_end_line = 1, rr_end_col = 2,
      rr_replacement = ascii ''X'', rr_expectedText = None\<rparr> =
   Inr (True, \<lparr>buffer = [ascii ''ab'', ascii ''cX''], diagnostics = [], matches = []\<rparr>) \<and>
   apply_replace_range
     \<lparr>buffer = [ascii ''ab'', ascii ''cd''], diagnostics = [], matches = []\<rparr>
     \<lparr>rr_start_line = 0, rr_start_col = 7, rr_end_line = 0, rr_end_col = 9,
      rr_replacement = ascii ''X'', rr_expectedText = None\<rparr> =
   Inr (True, \<lparr>buffer = [ascii ''abX'', ascii ''cd''], diagnostics = [], matches = []\<rparr>) \<and>
   apply_replace_range
     \<lparr>buffer = [ascii ''ab'', ascii ''cd''], diagnostics = [], matches = []\<rparr>
     \<lparr>rr_start_line = 2, rr_start_col = 1, rr_end_line = 2, rr_end_col = 2,
      rr_replacement = ascii ''X'', rr_expectedText = None\<rparr> =
   Inr (False,
     \<lparr>buffer = [ascii ''ab'', ascii ''cd''],
      diagnostics = [\<lparr>severity = ''error'', code = Some ''OUT_OF_RANGE'',
        message = Start_line_out_of_range 2, line = Some 2, col = None,
        source = Some ''editor''\<rparr>],
      matches = []\<rparr>)"
  by (simp add: apply_replace_range_def editor_error_def py_upto_def py_from_def
      slice_index_def ascii_def)

subsection \<open>\<^verbatim>\<open>replace_match\<close>\<close>

text \<open>
  C8. When the pattern of a \<^verbatim>\<open>replace_match\<close> edit does not compile, the operation fails,
  and the code of its diagnostic is \<^verbatim>\<open>INVALID_OPERATION\<close>; \<^verbatim>\<open>INVALID_REGEX\<close> is never used.
\<close>

theorem invalid_pattern_is_INVALID_OPERATION:
  assumes "re_compile env (if rm_literal e then re_escape env (rm_pattern e) else rm_pattern e)
             (regex_flags (rm_flags e)) = None"
  shows "apply_replace_match env doc ed e =
           Inr (False, ed\<lparr>diagnostics := diagnostics ed @
             [\<lparr>severity = ''error'', code = Some ''INVALID_OPERATION'',
               message = Invalid_regex_pattern, line = None, col = None,
               source = Some ''editor''\<rparr>]\<rparr>)"
  using assms by (simp add: apply_replace_match_def build_regex_def editor_error_def)

theorem invalid_pattern_is_INVALID_OPERATION_witness:
  "apply_replace_match stub_env doc_AB (new_editor doc_AB)
     \<lparr>rm_pattern = ascii ''('', rm_replacement = ascii ''y'', rm_literal = False,
      rm_flags = [], rm_occurrence = Occurrence_str (ascii ''all''),
      rm_expectedMatches = None,
      rm_scope = \<lparr>scope_kind = ascii ''whole_document'', scope_headingPath = None,
                  scope_includeSubsections = False\<rparr>,
      rm_codeBlocks = ascii ''exclude'', rm_linksAndImages = ascii ''exclude'',
      rm_tables = ascii ''exclude''\<rparr> =
   Inr (False, (new_editor doc_AB)\<lparr>diagnostics :=
     [\<lparr>severity = ''error'', code = Some ''INVALID_OPERATION'',
       message = Invalid_regex_pattern, line = None, col = None,
       source = Some ''editor''\<rparr>]\<rparr>) \<and>
   ErrorCode_value INVALID_REGEX \<noteq> ''INVALID_OPERATION''"
  using invalid_pattern_is_INVALID_OPERATION [of stub_env
     "\<lparr>rm_pattern = ascii ''('', rm_replacement = ascii ''y'', rm_literal = False,
      rm_flags = [], rm_occurrence = Occurrence_str (ascii ''all''),
      rm_expectedMatches = None,
      rm_scope = \<lparr>scope_kind = ascii ''whole_document'', scope_headingPath = None,
                  scope_includeSubsections = False\<rparr>,
      rm_codeBlocks = ascii ''exclude'', rm_linksAndImages = ascii ''exclude'',
      rm_tables = ascii ''exclude''\<rparr>" doc_AB "new_editor doc_AB"]
  by (simp add: stub_env_def stub_compile_def ascii_def new_editor_def)

text \<open>
  C10. A \<^verbatim>\<open>replace_match\<close> edit with occurrence \<^verbatim>\<open>"all"\<close> and no \<^verbatim>\<open>expectedMatches\<close>, whose
  pattern compiles, whose scope resolves and whose match set is empty, returns \<^verbatim>\<open>True\<close> and
  leaves the editor as it was: the same buffer, no match reported, no diagnostic.
\<close>

theorem replace_match_all_without_matches:
  assumes "build_regex env e = Continue rx"
    and "scope_lines env doc (buffer ed) (rm_scope e) = Continue (lo, hi)"
    and "find_matches rx doc (buffer ed) (rm_codeBlocks e = ascii ''exclude'')
           (rm_tables e = ascii ''exclude'') [lo .. hi] = Inr []"
    and "rm_occurrence e = Occurrence_str (ascii ''all'')"
    and "rm_expectedMatches e = None"
  shows "apply_replace_match env doc ed e = Inr (True, ed)"
  using assms by (simp add: apply_replace_match_def to_replace_def)

theorem replace_match_all_without_matches_witness:
  "apply_replace_match stub_env doc_AB (new_editor doc_AB)
     \<lparr>rm_pattern = ascii ''zzz'', rm_replacement = ascii ''y'', rm_literal = True,
      rm_flags = [], rm_occurrence = Occurrence_str (ascii ''all''),
      rm_expectedMatches = None,
      rm_scope = \<lparr>scope_kind = ascii ''whole_document'', scope_headingPath = None,
                  scope_includeSubsections = False\<rparr>,
      rm_codeBlocks = ascii ''exclude'', rm_linksAndImages = ascii ''exclude'',
      rm_tables = ascii ''exclude''\<rparr> =
   Inr (True, new_editor doc_AB)"
proof (rule replace_match_all_without_matches
    [where rx = "stub_finditer (ascii ''zzz'') 0" and lo = 0 and hi = 3])
  show "build_regex stub_env
     \<lparr>rm_pattern = ascii ''zzz'', rm_replacement = ascii ''y'', rm_literal = True,
      rm_flags = [], rm_occurrence = Occurrence_str (ascii ''all''),
      rm_expectedMatches = None,
      rm_scope = \<lparr>scope_kind = ascii ''whole_document'', scope_headingPath = None,
                  scope_includeSubsections = False\<rparr>,
      rm_codeBlocks = ascii ''exclude'', rm_linksAndImages = ascii ''exclude'',
      rm_tables = ascii ''exclude''\<rparr> = Continue (stub_finditer (ascii ''zzz'') 0)"
    by (simp add: build_regex_def stub_env_def stub_compile_def stub_escape_def stub_word_def
        ascii_def)
qed (simp_all add: scope_lines_def new_editor_def doc_AB_def py_index_def ascii_def
    startswith_def is_in_code_block_def is_in_table_def upto.simps)

subsection \<open>The fence validator\<close>

lemma fence_stack_snoc: "fence_stack (lines @ [ln]) = fence_step (fence_stack lines) ln"
  by (simp add: fence_stack_def)

lemma fence_stack_one_character:
  assumes "\<forall>ln \<in> set lines. is_fence_line ln \<longrightarrow> hd (strip ln) = c"
  shows "fence_stack lines = replicate (length (filter is_fence_line lines) mod 2) c"
  using assms
proof (induction lines rule: rev_induct)
  case Nil
  show ?case by (simp add: fence_stack_def)
next
  case (snoc ln lines)
  then have ih: "fence_stack lines = replicate (length (filter is_fence_line lines) mod 2) c"
    by simp
  show ?case
  proof (cases "is_fence_line ln")
    case False
    then show ?thesis by (simp add: fence_stack_snoc fence_step_def ih)
  next
    case True
    then have c: "hd (strip ln) = c" using snoc.prems by simp
    show ?thesis
    proof (cases "even (length (filter is_fence_line lines))")
      case True
      then have "length (filter is_fence_line lines) mod 2 = 0"
        and "Suc (length (filter is_fence_line lines)) mod 2 = 1"
        by presburger+
      with \<open>is_fence_line ln\<close> c ih show ?thesis
        by (simp add: fence_stack_snoc fence_step_def)
    next
      case False
      then have "length (filter is_fence_line lines) mod 2 = 1"
        and "Suc (length (filter is_fence_line lines)) mod 2 = 0"
        by presburger+
      with \<open>is_fence_line ln\<close> c ih show ?thesis
        by (simp add: fence_stack_snoc fence_step_def)
    qed
  qed
qed

text \<open>
  C7, as the code has it. The validator keeps one stack for backticks and tildes together:
  a fence line (its trimmed form begins with three backticks or three tildes) whose
  character is the top of the stack closes that fence, any other fence line opens one.
  It gives one diagnostic, \<^verbatim>\<open>UNBALANCED_FENCE\<close> with the number of open fences, when the
  stack is not empty at the end of the file, and none otherwise. When every fence line of
  the document has the same character, fence lines open and close in turn.
\<close>

theorem fence_validator_single_stack:
  "fence_stack [] = [] \<and>
   fence_stack (lines @ [ln]) =
     (if \<not> is_fence_line ln then fence_stack lines
      else if fence_stack lines \<noteq> [] \<and> hd (fence_stack lines) = hd (strip ln)
        then tl (fence_stack lines)
      else hd (strip ln) # fence_stack lines) \<and>
   length (validate_fences lines) = (if fence_stack lines = [] then 0 else 1) \<and>
   (\<forall>d \<in> set (validate_fences lines).
      code d = Some ''UNBALANCED_FENCE'' \<and>
      message d = Unbalanced_code_fence (length (fence_stack lines))) \<and>
   ((\<forall>l \<in> set lines. is_fence_line l \<longrightarrow> hd (strip l) = c) \<longrightarrow>
      length (fence_stack lines) = length (filter is_fence_line lines) mod 2)"
proof (intro conjI impI)
  show "fence_stack [] = []" by (simp add: fence_stack_def)
  show "fence_stack (lines @ [ln]) =
     (if \<not> is_fence_line ln then fence_stack lines
      else if fence_stack lines \<noteq> [] \<and> hd (fence_stack lines) = hd (strip ln)
        then tl (fence_stack lines)
      else hd (strip ln) # fence_stack lines)"
    by (auto simp: fence_stack_snoc fence_step_def)
  show "length (validate_fences lines) = (if fence_stack lines = [] then 0 else 1)"
    by (simp add: validate_fences_def)
  show "\<forall>d \<in> set (validate_fences lines).
      code d = Some ''UNBALANCED_FENCE'' \<and>
      message d = Unbalanced_code_fence (length (fence_stack lines))"
    by (simp add: validate_fences_def)
  assume "\<forall>l \<in> set lines. is_fence_line l \<longrightarrow> hd (strip l) = c"
  from fence_stack_one_character [OF this]
  show "length (fence_stack lines) = length (filter is_fence_line lines) mod 2" by simp
qed

theorem fence_validator_single_stack_witness:
  "fence_stack ([ascii ''```'', ascii ''a'', ascii ''```''] @ [ascii ''```'']) = [96] \<and>
   length (validate_fences [ascii ''```'', ascii ''a'', ascii ''```'']) = 0 \<and>
   length (fence_stack [ascii ''```'', ascii ''a'', ascii ''```'']) = 0 \<and>
   length (filter is_fence_line [ascii ''```'', ascii ''a'', ascii ''```'']) = 2"
proof -
  have one: "\<forall>l \<in> set [ascii ''```'', ascii ''a'', ascii ''```'']. is_fence_line l \<longrightarrow> hd (strip l) = 96"
    by (simp add: is_fence_line_def strip_def is_space_def startswith_def ascii_def)
  have n: "length (filter is_fence_line [ascii ''```'', ascii ''a'', ascii ''```'']) = 2"
    by (simp add: is_fence_line_def strip_def is_space_def startswith_def ascii_def)
  have f: "is_fence_line (ascii ''```'')" "hd (strip (ascii ''```'')) = 96"
    by (simp_all add: is_fence_line_def strip_def is_space_def startswith_def ascii_def)
  from fence_validator_single_stack
    [of "[ascii ''```'', ascii ''a'', ascii ''```'']" "ascii ''```''" 96] one n f
  show ?thesis by simp
qed

text \<open>The claim fails on two counts. A backtick fence and a tilde fence left open are two
  unclosed fences and give one diagnostic; and backtick and tilde fence lines in turn,
  two of each, leave nothing open when counted apart, and are reported.\<close>

theorem fence_validator_counterexample:
  "length (validate_fences [ascii ''```'', ascii ''~~~'']) = 1 \<and>
   spec_unclosed_fences [ascii ''```'', ascii ''~~~''] = 2 \<and>
   length (validate_fences [ascii ''```'', ascii ''~~~'', ascii ''```'', ascii ''~~~'']) = 1 \<and>
   spec_unclosed_fences [ascii ''```'', ascii ''~~~'', ascii ''```'', ascii ''~~~''] = 0"
  by (simp add: validate_fences_def fence_stack_def fence_step_def is_fence_line_def
      spec_unclosed_fences_def fence_lines_of_def strip_def is_space_def startswith_def ascii_def)

subsection \<open>\<^verbatim>\<open>replace_section\<close>\<close>

lemma split_acc_hd:
  "hd (split_acc [10] cur s) = cur @ takeWhile (\<lambda>c. c \<noteq> (10::nat)) s"
proof (induction s arbitrary: cur)
  case Nil
  show ?case by (subst split_acc.simps) simp
next
  case (Cons c cs)
  show ?case
  proof (cases "c = 10")
    case True
    then show ?thesis by (subst split_acc.simps) (simp add: startswith_def del: split_acc.simps)
  next
    case False
    have "split_acc [10] cur (c # cs) = split_acc [10] (cur @ [c]) cs"
      using False by (subst split_acc.simps) (simp add: startswith_def del: split_acc.simps)
    then show ?thesis using Cons [of "cur @ [c]"] False by (simp del: split_acc.simps)
  qed
qed

lemma split_acc_nonempty: "split_acc sep cur s \<noteq> []"
proof (induction sep cur s rule: split_acc.induct)
  case (1 sep cur s)
  show ?case
  proof (cases "s = []")
    case True
    then show ?thesis by (subst split_acc.simps) simp
  next
    case False
    show ?thesis
    proof (cases "sep \<noteq> [] \<and> startswith s sep")
      case True
      with False show ?thesis by (subst split_acc.simps) (simp del: split_acc.simps)
    next
      case no: False
      then have "split_acc sep cur s = split_acc sep (cur @ [hd s]) (tl s)"
        using False by (subst split_acc.simps) (auto simp del: split_acc.simps)
      with "1.IH"(2) [OF False no] show ?thesis by (simp del: split_acc.simps)
    qed
  qed
qed

lemma split_nonempty: "split sep s \<noteq> []"
  by (simp add: split_def split_acc_nonempty del: split_acc.simps)

lemma hd_split_newline: "hd (split [10] s) = takeWhile (\<lambda>c. c \<noteq> (10::nat)) s"
  by (simp add: split_def split_acc_hd del: split_acc.simps)

lemma has_heading_first_line:
  "has_heading (split [10] md) = startswith (strip (takeWhile (\<lambda>c. c \<noteq> 10) md)) (ascii ''#'')"
  by (simp add: has_heading_def hd_split_newline split_nonempty del: split_acc.simps)

lemma py_upto_nonneg: "0 \<le> n \<Longrightarrow> py_upto n xs = take (nat n) xs"
  by (simp add: py_upto_def slice_index_def min_def)

lemma py_from_nonneg: "0 \<le> n \<Longrightarrow> py_from n xs = drop (nat n) xs"
  by (simp add: py_from_def slice_index_def min_def)

lemma resolve_xHy:
  "resolve_section stub_env doc_xHy (Some [ascii ''H'']) None = Continue section_H"
  by (simp add: resolve_section_def truthy_def get_section_by_path_def section_matches_def
      doc_xHy_def section_H_def ascii_def)

text \<open>
  C4, as the code has it. For a \<^verbatim>\<open>replace_section\<close> edit that resolves to a section whose
  heading line is a line of the buffer and not beyond the content end: when the first line
  of the markdown (the text before its first newline, empty or not), trimmed, begins with
  \<^verbatim>\<open>#\<close>, the lines of the markdown replace the lines \<open>heading_line .. content_end\<close>;
  otherwise they replace the lines \<open>heading_line + 1 .. content_end\<close>, and the heading line
  stays.
\<close>

theorem replace_section_first_line_rule:
  assumes "rs_markdown e = Some md"
    and "resolve_section env doc (rs_headingPath e) (rs_sectionId e) = Continue sec"
    and "0 \<le> heading_line sec"
    and "heading_line sec < int (length (buffer ed))"
    and "heading_line sec \<le> content_end doc e sec"
  shows "apply_replace_section env doc ed e =
     Inr (True, ed\<lparr>buffer :=
       (if startswith (strip (takeWhile (\<lambda>c. c \<noteq> 10) md)) (ascii ''#'')
        then take (nat (heading_line sec)) (buffer ed)
        else take (nat (heading_line sec) + 1) (buffer ed)) @
       split [10] md @ drop (nat (content_end doc e sec) + 1) (buffer ed)\<rparr>)"
proof -
  have a: "nat (heading_line sec + 1) = nat (heading_line sec) + 1"
    and b: "nat (content_end doc e sec + 1) = nat (content_end doc e sec) + 1"
    using assms(3,5) by simp_all
  have c: "0 \<le> heading_line sec + 1" "0 \<le> content_end doc e sec + 1"
    using assms(3,5) by simp_all
  show ?thesis
    using assms(1,2,3,4)
    by (simp add: apply_replace_section_def has_heading_first_line py_upto_nonneg c
        py_from_nonneg a b py_index_def Let_def del: split_acc.simps)
qed

theorem replace_section_first_line_rule_witness:
  "apply_replace_section stub_env doc_xHy (new_editor doc_xHy)
     \<lparr>rs_markdown = Some (ascii ''body''), rs_headingPath = Some [ascii ''H''],
      rs_sectionId = None, rs_keepSubsections = False\<rparr> =
   Inr (True, (new_editor doc_xHy)\<lparr>buffer := [ascii ''x'', ascii ''# H'', ascii ''body'']\<rparr>)"
proof -
  let ?e = "\<lparr>rs_markdown = Some (ascii ''body''), rs_headingPath = Some [ascii ''H''],
      rs_sectionId = None, rs_keepSubsections = False\<rparr>"
  have r: "resolve_section stub_env doc_xHy (rs_headingPath ?e) (rs_sectionId ?e) =
             Continue section_H"
    using resolve_xHy by simp
  have h: "0 \<le> heading_line section_H"
    "heading_line section_H < int (length (buffer (new_editor doc_xHy)))"
    "heading_line section_H \<le> content_end doc_xHy ?e section_H"
    by (simp_all add: section_H_def content_end_def new_editor_def doc_xHy_def)
  have m: "rs_markdown ?e = Some (ascii ''body'')" by simp
  show ?thesis
    using replace_section_first_line_rule [OF m r h]
    by (simp add: doc_xHy_def section_H_def content_end_def new_editor_def ascii_def strip_def
        is_space_def startswith_def split_def)
qed

text \<open>The claim's rule looks at the first non-empty line. On the file \<^verbatim>\<open>"x\n# H\ny"\<close>, the
  markdown \<^verbatim>\<open>"\n# New"\<close> has a blank first line and a heading on its second; the code keeps
  the old heading \<^verbatim>\<open># H\<close>, where the claim replaces it.\<close>

theorem replace_section_blank_first_line_counterexample:
  "apply_replace_section stub_env doc_xHy (new_editor doc_xHy)
     \<lparr>rs_markdown = Some (ascii ''\<newline># New''), rs_headingPath = Some [ascii ''H''],
      rs_sectionId = None, rs_keepSubsections = False\<rparr> =
   Inr (True, (new_editor doc_xHy)\<lparr>buffer := [ascii ''x'', ascii ''# H'', [], ascii ''# New'']\<rparr>) \<and>
   spec_has_heading (split [10] (ascii ''\<newline># New'')) \<and>
   [ascii ''x'', ascii ''# H'', [], ascii ''# New''] \<noteq>
     take 1 (doc_lines doc_xHy) @ split [10] (ascii ''\<newline># New'') @ drop 3 (doc_lines doc_xHy)"
proof -
  have s: "split [10] (ascii ''\<newline># New'') = [[], ascii ''# New'']"
    by (simp add: split_def ascii_def startswith_def)
  have c: "content_end doc_xHy
             \<lparr>rs_markdown = Some (ascii ''\<newline># New''), rs_headingPath = Some [ascii ''H''],
              rs_sectionId = None, rs_keepSubsections = False\<rparr> section_H = 2"
    by (simp add: content_end_def section_H_def)
  have h: "heading_line section_H = 1"
    by (simp add: section_H_def)
  have run: "apply_replace_section stub_env doc_xHy (new_editor doc_xHy)
     \<lparr>rs_markdown = Some (ascii ''\<newline># New''), rs_headingPath = Some [ascii ''H''],
      rs_sectionId = None, rs_keepSubsections = False\<rparr> =
   Inr (True, (new_editor doc_xHy)\<lparr>buffer := [ascii ''x'', ascii ''# H'', [], ascii ''# New'']\<rparr>)"
    unfolding apply_replace_section_def
    apply (simp add: resolve_xHy s c h Let_def)
    apply (simp add: has_heading_def py_index_def py_upto_def py_from_def slice_index_def
        doc_xHy_def section_H_def new_editor_def ascii_def strip_def is_space_def
        startswith_def)
    done
  have sp: "spec_has_heading (split [10] (ascii ''\<newline># New''))"
    unfolding s by (simp add: spec_has_heading_def ascii_def strip_def is_space_def startswith_def)
  have ne: "[ascii ''x'', ascii ''# H'', [], ascii ''# New''] \<noteq>
     take 1 (doc_lines doc_xHy) @ split [10] (ascii ''\<newline># New'') @ drop 3 (doc_lines doc_xHy)"
    unfolding s by (simp add: doc_xHy_def ascii_def)
  from run sp ne show ?thesis by blast
qed






subsection \<open>Replacing every match, from the last to the first\<close>

text \<open>The loop over \<^verbatim>\<open>to_replace\<close> leaves in line \<open>i\<close> what the matches of line \<open>i\<close> make of
  it, taken in the order of the loop.\<close>

lemma replace_one_in_range:
  assumes "0 \<le> n" and "n < int (length buf)"
  shows "replace_one r buf (n, s, e, t) =
           Inr (buf[nat n := take s (buf ! nat n) @ r @ drop e (buf ! nat n)])"
  using assms by (simp add: replace_one_def py_index_def)

lemma replace_each_lines:
  assumes "\<forall>m \<in> set ms. 0 \<le> fst m \<and> fst m < int (length buf)"
  shows "\<exists>buf'. replace_each r buf ms = Inr buf' \<and> length buf' = length buf \<and>
           (\<forall>i < length buf. buf' ! i =
              fold (\<lambda>m ln. take (fst (snd m)) ln @ r @ drop (fst (snd (snd m))) ln)
                (filter (\<lambda>m. fst m = int i) ms) (buf ! i))"
  using assms
proof (induction ms arbitrary: buf)
  case Nil
  then show ?case by simp
next
  case (Cons m ms)
  obtain n s e t where m: "m = (n, s, e, t)" by (cases m) auto
  let ?b = "buf[nat n := take s (buf ! nat n) @ r @ drop e (buf ! nat n)]"
  have n: "0 \<le> n" "n < int (length buf)" using Cons.prems m by auto
  have one: "replace_one r buf m = Inr ?b"
    using replace_one_in_range [OF n] m by simp
  have "\<forall>m \<in> set ms. 0 \<le> fst m \<and> fst m < int (length ?b)"
    using Cons.prems by simp
  from Cons.IH [OF this] obtain buf' where
    run: "replace_each r ?b ms = Inr buf'" and len: "length buf' = length buf"
    and each: "\<forall>i < length buf. buf' ! i =
              fold (\<lambda>m ln. take (fst (snd m)) ln @ r @ drop (fst (snd (snd m))) ln)
                (filter (\<lambda>m. fst m = int i) ms) (?b ! i)"
    by auto
  have "\<forall>i < length buf. buf' ! i =
              fold (\<lambda>m ln. take (fst (snd m)) ln @ r @ drop (fst (snd (snd m))) ln)
                (filter (\<lambda>m. fst m = int i) (m # ms)) (buf ! i)"
  proof (intro allI impI)
    fix i assume i: "i < length buf"
    show "buf' ! i =
              fold (\<lambda>m ln. take (fst (snd m)) ln @ r @ drop (fst (snd (snd m))) ln)
                (filter (\<lambda>m. fst m = int i) (m # ms)) (buf ! i)"
    proof (cases "n = int i")
      case True
      then have "nat n = i" by simp
      with each i True m show ?thesis by simp
    next
      case False
      then have "nat n \<noteq> i" using n by auto
      with each i False m show ?thesis by simp
    qed
  qed
  with one run len show ?case by simp
qed

text \<open>Replacing the matches of one line from the last to the first gives the line with
  every match replaced.\<close>

lemma replace_backwards:
  assumes "spans_from p (length ln) spans"
  shows "foldr (\<lambda>se l. take (fst se) l @ r @ drop (snd se) l) spans ln =
           take p ln @ substitute_from p r ln spans"
  using assms
proof (induction spans arbitrary: p)
  case Nil
  then show ?case by simp
next
  case (Cons se spans)
  obtain s e where se: "se = (s, e)" by (cases se)
  from Cons.prems se have b: "p \<le> s" "s \<le> e" "e \<le> length ln"
    and rest: "spans_from e (length ln) spans" by simp_all
  let ?L = "take e ln @ substitute_from e r ln spans"
  have ih: "foldr (\<lambda>se l. take (fst se) l @ r @ drop (snd se) l) spans ln = ?L"
    using Cons.IH [OF rest] .
  have t: "take s ?L = take s ln" using b by (simp add: min_def)
  have d: "drop e ?L = substitute_from e r ln spans" using b by simp
  have "take p ln @ take (s - p) (drop p ln) = take s ln"
    using b by (metis le_add_diff_inverse take_add)
  then show ?case using ih t d se by simp
qed


text \<open>The matches \<^verbatim>\<open>finditer\<close> gives for the lines \<open>ns\<close>, line by line.\<close>

lemma find_matches_lines:
  assumes "find_matches rx doc buf nc nt ns = Inr ms"
    and "\<forall>n \<in> set ns. 0 \<le> n" and "distinct ns"
  shows "(\<forall>n \<in> set ns. n < int (length buf)) \<and>
         (\<forall>k. filter (\<lambda>m. fst m = k) ms =
            (if k \<in> set ns \<and> \<not> (nc \<and> is_in_code_block doc k) \<and> \<not> (nt \<and> is_in_table doc k)
             then map (\<lambda>(s, e). (k, s, e, take (e - s) (drop s (buf ! nat k)))) (rx (buf ! nat k))
             else []))"
proof -
  define keep where
    "keep k = (\<not> (nc \<and> is_in_code_block doc k) \<and> \<not> (nt \<and> is_in_table doc k))" for k
  define block where
    "block k = map (\<lambda>(s, e). (k, s, e, take (e - s) (drop s (buf ! nat k)))) (rx (buf ! nat k))" for k
  have block_filter: "filter (\<lambda>m. fst m = k) (block n) = (if k = n then block n else [])" for k n
    by (auto simp: block_def filter_empty_conv filter_id_conv)
  have "(\<forall>n \<in> set ns. n < int (length buf)) \<and>
        (\<forall>k. filter (\<lambda>m. fst m = k) ms = (if k \<in> set ns \<and> keep k then block k else []))"
    using assms
  proof (induction ns arbitrary: ms)
    case Nil
    then show ?case by simp
  next
    case (Cons n ns)
    from Cons.prems(1) obtain ln where ix: "py_index buf n = Inr ln"
      by (auto split: sum.splits)
    from Cons.prems(2) have n0: "0 \<le> n" by simp
    with ix have n: "n < int (length buf)" and ln: "ln = buf ! nat n"
      by (auto simp: py_index_def split: if_splits)
    from Cons.prems(1) ix obtain ms0 where
      rest: "find_matches rx doc buf nc nt ns = Inr ms0"
      by (auto split: sum.splits)
    from Cons.prems have "\<forall>n \<in> set ns. 0 \<le> n" "distinct ns" by simp_all
    from Cons.IH [OF rest this] have
      ih1: "\<forall>n \<in> set ns. n < int (length buf)" and
      ih2: "\<And>k. filter (\<lambda>m. fst m = k) ms0 = (if k \<in> set ns \<and> keep k then block k else [])"
      by simp_all
    have notin: "n \<notin> set ns" using Cons.prems(3) by simp
    have ms: "ms = (if keep n then block n @ ms0 else ms0)"
      using Cons.prems(1) ix rest ln by (auto simp: keep_def block_def split: if_splits)
    have "filter (\<lambda>m. fst m = k) ms = (if k \<in> set (n # ns) \<and> keep k then block k else [])" for k
    proof (cases "k = n")
      case True
      with notin have "filter (\<lambda>m. fst m = k) ms0 = []" using ih2 [of k] by simp
      with True ms block_filter [of k n] show ?thesis by simp
    next
      case False
      with ms block_filter [of k n] ih2 [of k] show ?thesis by simp
    qed
    with n ih1 show ?case by simp
  qed
  then show ?thesis unfolding keep_def block_def .
qed

lemma find_matches_members:
  assumes "find_matches rx doc buf nc nt ns = Inr ms"
  shows "\<forall>m \<in> set ms. fst m \<in> set ns"
  using assms
proof (induction ns arbitrary: ms)
  case Nil
  then show ?case by simp
next
  case (Cons n ns)
  from Cons.prems obtain ln ms0 where "py_index buf n = Inr ln"
    and rest: "find_matches rx doc buf nc nt ns = Inr ms0"
    and "set ms \<subseteq> set (map (\<lambda>(s, e). (n, s, e, take (e - s) (drop s ln))) (rx ln)) \<union> set ms0"
    by (auto split: sum.splits if_splits)
  with Cons.IH [OF rest] show ?case by auto
qed

text \<open>
  C6. A \<^verbatim>\<open>replace_match\<close> edit with occurrence \<^verbatim>\<open>"all"\<close> that succeeds walks the matches
  from the last to the first (\<open>rev ms\<close>), and afterwards every line of the scope that is not
  filtered out is the line it was with every match replaced by the replacement, the text
  between the matches untouched (\<open>substitute_all\<close>); the other lines are as they were.
  The scope starts at a line number (\<open>0 \<le> lo\<close>), and \<^verbatim>\<open>finditer\<close> gives the matches of a
  line from left to right without overlap.
\<close>

theorem replace_match_all_replaces_every_match:
  assumes "build_regex env e = Continue rx"
    and "scope_lines env doc (buffer ed) (rm_scope e) = Continue (lo, hi)"
    and "0 \<le> lo"
    and "rm_occurrence e = Occurrence_str (ascii ''all'')"
    and "apply_replace_match env doc ed e = Inr (True, ed')"
    and "\<forall>n \<in> set [lo .. hi]. finditer_ok rx (buffer ed ! nat n)"
  shows "(\<exists>ms. find_matches rx doc (buffer ed) (rm_codeBlocks e = ascii ''exclude'')
                 (rm_tables e = ascii ''exclude'') [lo .. hi] = Inr ms \<and>
               to_replace (rm_occurrence e) ms = Continue (rev ms) \<and>
               replace_each (rm_replacement e) (buffer ed) (rev ms) = Inr (buffer ed')) \<and>
         length (buffer ed') = length (buffer ed) \<and>
         (\<forall>i < length (buffer ed). buffer ed' ! i =
            (if lo \<le> int i \<and> int i \<le> hi \<and>
                \<not> (rm_codeBlocks e = ascii ''exclude'' \<and> is_in_code_block doc (int i)) \<and>
                \<not> (rm_tables e = ascii ''exclude'' \<and> is_in_table doc (int i))
             then substitute_all (rm_replacement e) (buffer ed ! i) (rx (buffer ed ! i))
             else buffer ed ! i))"
proof -
  let ?nc = "rm_codeBlocks e = ascii ''exclude''" and ?nt = "rm_tables e = ascii ''exclude''"
  let ?r = "rm_replacement e" and ?buf = "buffer ed"
  let ?step = "\<lambda>m ln. take (fst (snd m)) ln @ ?r @ drop (fst (snd (snd m))) ln"
  from assms(1,2,4,5) obtain ms where
    fm: "find_matches rx doc ?buf ?nc ?nt [lo .. hi] = Inr ms" and
    run: "replace_each ?r ?buf (rev ms) = Inr (buffer ed')"
    by (auto simp: apply_replace_match_def to_replace_def editor_error_def Let_def
        split: sum.splits if_splits)
  have tr: "to_replace (rm_occurrence e) ms = Continue (rev ms)"
    using assms(4) by (simp add: to_replace_def)
  have nonneg: "\<forall>n \<in> set [lo .. hi]. 0 \<le> n" using assms(3) by auto
  from find_matches_lines [OF fm nonneg] have
    inside: "\<forall>n \<in> set [lo .. hi]. n < int (length ?buf)" and
    per_line: "\<And>k. filter (\<lambda>m. fst m = k) ms =
            (if k \<in> set [lo .. hi] \<and> \<not> (?nc \<and> is_in_code_block doc k) \<and>
                \<not> (?nt \<and> is_in_table doc k)
             then map (\<lambda>(s, e). (k, s, e, take (e - s) (drop s (?buf ! nat k)))) (rx (?buf ! nat k))
             else [])"
    by simp_all
  have "\<forall>m \<in> set (rev ms). 0 \<le> fst m \<and> fst m < int (length ?buf)"
    using find_matches_members [OF fm] nonneg inside by auto
  from replace_each_lines [OF this, of ?r] run have
    len: "length (buffer ed') = length ?buf" and
    each: "\<forall>i < length ?buf. buffer ed' ! i =
             fold ?step (filter (\<lambda>m. fst m = int i) (rev ms)) (?buf ! i)"
    by auto
  have "\<forall>i < length ?buf. buffer ed' ! i =
            (if lo \<le> int i \<and> int i \<le> hi \<and> \<not> (?nc \<and> is_in_code_block doc (int i)) \<and>
                \<not> (?nt \<and> is_in_table doc (int i))
             then substitute_all ?r (?buf ! i) (rx (?buf ! i))
             else ?buf ! i)"
  proof (intro allI impI)
    fix i assume i: "i < length ?buf"
    have undo: "fold ?step (filter (\<lambda>m. fst m = int i) (rev ms)) (?buf ! i) =
                foldr ?step (filter (\<lambda>m. fst m = int i) ms) (?buf ! i)"
      by (simp add: foldr_conv_fold rev_filter)
    show "buffer ed' ! i =
            (if lo \<le> int i \<and> int i \<le> hi \<and> \<not> (?nc \<and> is_in_code_block doc (int i)) \<and>
                \<not> (?nt \<and> is_in_table doc (int i))
             then substitute_all ?r (?buf ! i) (rx (?buf ! i))
             else ?buf ! i)"
    proof (cases "lo \<le> int i \<and> int i \<le> hi \<and> \<not> (?nc \<and> is_in_code_block doc (int i)) \<and>
                \<not> (?nt \<and> is_in_table doc (int i))")
      case True
      then have mem: "int i \<in> set [lo .. hi]" by simp
      from bspec [OF assms(6) mem] have ok: "spans_from 0 (length (?buf ! i)) (rx (?buf ! i))"
        by (simp add: finditer_ok_def)
      have "filter (\<lambda>m. fst m = int i) ms =
              map (\<lambda>(s, e). (int i, s, e, take (e - s) (drop s (?buf ! i)))) (rx (?buf ! i))"
        using per_line [of "int i"] True mem by simp
      then have "foldr ?step (filter (\<lambda>m. fst m = int i) ms) (?buf ! i) =
                 foldr (\<lambda>se l. take (fst se) l @ ?r @ drop (snd se) l) (rx (?buf ! i)) (?buf ! i)"
        by (simp add: foldr_map comp_def case_prod_beta)
      also have "\<dots> = substitute_all ?r (?buf ! i) (rx (?buf ! i))"
        using replace_backwards [OF ok, of ?r] by (simp add: substitute_all_def)
      finally show ?thesis using each i undo True by simp
    next
      case False
      then have "filter (\<lambda>m. fst m = int i) ms = []"
        using per_line [of "int i"] by auto
      with each i undo have "buffer ed' ! i = ?buf ! i" by simp
      then show ?thesis by (simp only: if_not_P [OF False])
    qed
  qed
  with fm tr run len show ?thesis by blast
qed

theorem replace_match_all_replaces_every_match_witness:
  "apply_replace_match stub_env doc_AB (new_editor doc_AB)
     \<lparr>rm_pattern = ascii ''#'', rm_replacement = ascii ''='', rm_literal = True,
      rm_flags = [], rm_occurrence = Occurrence_str (ascii ''all''),
      rm_expectedMatches = None,
      rm_scope = \<lparr>scope_kind = ascii ''whole_document'', scope_headingPath = None,
                  scope_includeSubsections = False\<rparr>,
      rm_codeBlocks = ascii ''exclude'', rm_linksAndImages = ascii ''exclude'',
      rm_tables = ascii ''exclude''\<rparr> =
   Inr (True,
     \<lparr>buffer = [ascii ''= A'', ascii ''old'', ascii ''== B'', ascii ''x''], diagnostics = [],
      matches = map report_match
        [(0, 0, 1, ascii ''#''), (2, 0, 1, ascii ''#''), (2, 1, 2, ascii ''#'')]\<rparr>) \<and>
   substitute_all (ascii ''='') (ascii ''## B'') (stub_finditer (ascii ''#'') 0 (ascii ''## B'')) =
     ascii ''== B''"
proof -
  let ?e = "\<lparr>rm_pattern = ascii ''#'', rm_replacement = ascii ''='', rm_literal = True,
      rm_flags = [], rm_occurrence = Occurrence_str (ascii ''all''),
      rm_expectedMatches = None,
      rm_scope = \<lparr>scope_kind = ascii ''whole_document'', scope_headingPath = None,
                  scope_includeSubsections = False\<rparr>,
      rm_codeBlocks = ascii ''exclude'', rm_linksAndImages = ascii ''exclude'',
      rm_tables = ascii ''exclude''\<rparr>"
  let ?ed' = "\<lparr>buffer = [ascii ''= A'', ascii ''old'', ascii ''== B'', ascii ''x''], diagnostics = [],
      matches = map report_match
        [(0, 0, 1, ascii ''#''), (2, 0, 1, ascii ''#''), (2, 1, 2, ascii ''#'')]\<rparr>"
  have br: "build_regex stub_env ?e = Continue (stub_finditer (ascii ''#'') 0)"
    by (simp add: build_regex_def stub_env_def stub_compile_def stub_escape_def stub_word_def
        ascii_def)
  have sc0: "scope_lines stub_env doc_AB (buffer (new_editor doc_AB))
               \<lparr>scope_kind = ascii ''whole_document'', scope_headingPath = None,
                scope_includeSubsections = False\<rparr> = Continue (0, 3)"
    by (simp add: scope_lines_def new_editor_def doc_AB_def)
  then have sc: "scope_lines stub_env doc_AB (buffer (new_editor doc_AB)) (rm_scope ?e) =
                   Continue (0, 3)"
    by simp
  have fm: "find_matches (stub_finditer (ascii ''#'') 0) doc_AB (buffer (new_editor doc_AB))
              True True [0 .. 3] =
            Inr [(0, 0, 1, ascii ''#''), (2, 0, 1, ascii ''#''), (2, 1, 2, ascii ''#'')]"
    by (simp add: new_editor_def doc_AB_def py_index_def ascii_def startswith_def
        is_in_code_block_def is_in_table_def upto.simps)
  have run: "apply_replace_match stub_env doc_AB (new_editor doc_AB) ?e = Inr (True, ?ed')"
    unfolding apply_replace_match_def
    apply (simp add: br sc0)
    apply (simp add: fm to_replace_def)
    apply (simp add: new_editor_def doc_AB_def replace_one_def py_index_def ascii_def)
    done
  have ok: "\<forall>n \<in> set [0 .. 3].
              finditer_ok (stub_finditer (ascii ''#'') 0) (buffer (new_editor doc_AB) ! nat n)"
    by (simp add: finditer_ok_def new_editor_def doc_AB_def ascii_def startswith_def upto.simps)
  have occ: "rm_occurrence ?e = Occurrence_str (ascii ''all'')" by simp
  have lo0: "(0::int) \<le> 0" by simp
  have len: "2 < length (buffer (new_editor doc_AB))"
    by (simp add: new_editor_def doc_AB_def)
  from replace_match_all_replaces_every_match
    [OF br sc lo0 occ run ok, THEN conjunct2, THEN conjunct2, rule_format, OF len]
  have "substitute_all (ascii ''='') (ascii ''## B'')
          (stub_finditer (ascii ''#'') 0 (ascii ''## B'')) = ascii ''== B''"
    by (simp add: new_editor_def doc_AB_def is_in_code_block_def is_in_table_def)
  with run show ?thesis by simp
qed

subsection \<open>Decoding and encoding again\<close>

lemma div_mod_64:
  "z < 64 \<Longrightarrow> (k * 64 + z) div 64 = (k::nat) \<and> (k * 64 + z) mod 64 = z"
  by simp

lemma div_mod_3:
  assumes "y < 64" and "z < 64"
  shows "(a * 4096 + y * 64 + z) div 4096 = (a::nat) \<and>
   ((a * 4096 + y * 64 + z) div 64) mod 64 = y \<and>
   (a * 4096 + y * 64 + z) mod 64 = z"
proof -
  let ?c = "a * 4096 + y * 64 + z"
  have e: "?c = (a * 64 + y) * 64 + z" by simp
  have d1: "?c div 64 = a * 64 + y" and m: "?c mod 64 = z"
    using div_mod_64 [OF assms(2), of "a * 64 + y"] by (simp_all only: e)
  have "?c div 4096 = ?c div 64 div 64"
    using div_mult2_eq [of ?c 64 64] by simp
  then have d2: "?c div 4096 = a"
    using div_mod_64 [OF assms(1), of a] by (simp only: d1)
  have "?c div 64 mod 64 = y"
    using div_mod_64 [OF assms(1), of a] by (simp only: d1)
  with d2 m show ?thesis by simp
qed

lemma div_mod_4:
  assumes "y < 64" and "z < 64" and "w < 64"
  shows "(a * 262144 + y * 4096 + z * 64 + w) div 262144 = (a::nat) \<and>
   ((a * 262144 + y * 4096 + z * 64 + w) div 4096) mod 64 = y \<and>
   ((a * 262144 + y * 4096 + z * 64 + w) div 64) mod 64 = z \<and>
   (a * 262144 + y * 4096 + z * 64 + w) mod 64 = w"
proof -
  let ?c = "a * 262144 + y * 4096 + z * 64 + w"
  let ?d = "a * 4096 + y * 64 + z"
  have e: "?c = ?d * 64 + w" by simp
  have d1: "?c div 64 = ?d" and m: "?c mod 64 = w"
    using div_mod_64 [OF assms(3), of ?d] by (simp_all only: e)
  note three = div_mod_3 [OF assms(1,2), of a]
  have m2: "?c div 64 mod 64 = z" using three by (simp only: d1)
  have "?c div 4096 = ?c div 64 div 64"
    using div_mult2_eq [of ?c 64 64] by simp
  then have d2: "?c div 4096 = ?d div 64" by (simp only: d1)
  then have m3: "?c div 4096 mod 64 = y" using three by simp
  have "?c div 262144 = ?c div 64 div 4096"
    using div_mult2_eq [of ?c 64 4096] by simp
  then have d3: "?c div 262144 = a" using three by (simp only: d1)
  from d3 m3 m2 m show ?thesis by simp
qed


lemma byte_of_unat: "of_nat (unat b) = (b::byte)"
  by simp

lemma encode_two:
  assumes "0xC2 \<le> unat b" and "unat b \<le> 0xDF" and "continuation b1"
  shows "encode_cp ((unat b - 0xC0) * 64 + (unat b1 - 0x80)) = Some [b, b1]"
proof -
  define a y where "a = unat b - 0xC0" and "y = unat b1 - 0x80"
  have bounds: "2 \<le> a" "a \<le> 31" "y < 64" and orig: "0xC0 + a = unat b" "0x80 + y = unat b1"
    using assms by (auto simp: a_def y_def continuation_def)
  have c: "128 \<le> a * 64 + y" "a * 64 + y < 2048" using bounds by simp_all
  have "encode_cp (a * 64 + y) = Some [of_nat (0xC0 + a), of_nat (0x80 + y)]"
    using c div_mod_64 [OF bounds(3), of a] by (simp add: encode_cp_def)
  then show ?thesis
    unfolding orig byte_of_unat by (simp only: a_def y_def)
qed

lemma encode_three:
  assumes "0xE0 \<le> unat b" and "unat b \<le> 0xEF" and "continuation b1" and "continuation b2"
    and "0x800 \<le> (unat b - 0xE0) * 4096 + (unat b1 - 0x80) * 64 + (unat b2 - 0x80)"
    and "\<not> (0xD800 \<le> (unat b - 0xE0) * 4096 + (unat b1 - 0x80) * 64 + (unat b2 - 0x80) \<and>
            (unat b - 0xE0) * 4096 + (unat b1 - 0x80) * 64 + (unat b2 - 0x80) \<le> 0xDFFF)"
  shows "encode_cp ((unat b - 0xE0) * 4096 + (unat b1 - 0x80) * 64 + (unat b2 - 0x80)) =
           Some [b, b1, b2]"
proof -
  define a y z where "a = unat b - 0xE0" and "y = unat b1 - 0x80" and "z = unat b2 - 0x80"
  have bounds: "a \<le> 15" "y < 64" "z < 64"
    and orig: "0xE0 + a = unat b" "0x80 + y = unat b1" "0x80 + z = unat b2"
    using assms(1-4) by (auto simp: a_def y_def z_def continuation_def)
  have c: "0x800 \<le> a * 4096 + y * 64 + z" "a * 4096 + y * 64 + z < 0x10000"
    "\<not> (0xD800 \<le> a * 4096 + y * 64 + z \<and> a * 4096 + y * 64 + z \<le> 0xDFFF)"
    using bounds assms(5,6) by (simp_all add: a_def y_def z_def)
  have "encode_cp (a * 4096 + y * 64 + z) =
          Some [of_nat (0xE0 + a), of_nat (0x80 + y), of_nat (0x80 + z)]"
    using c div_mod_3 [OF bounds(2,3), of a] by (simp add: encode_cp_def)
  then show ?thesis
    unfolding orig byte_of_unat by (simp only: a_def y_def z_def)
qed

lemma encode_four:
  assumes "0xF0 \<le> unat b" and "unat b \<le> 0xF4"
    and "continuation b1" and "continuation b2" and "continuation b3"
    and "0x10000 \<le> (unat b - 0xF0) * 262144 + (unat b1 - 0x80) * 4096 +
                       (unat b2 - 0x80) * 64 + (unat b3 - 0x80)"
    and "(unat b - 0xF0) * 262144 + (unat b1 - 0x80) * 4096 +
         (unat b2 - 0x80) * 64 + (unat b3 - 0x80) < 0x110000"
  shows "encode_cp ((unat b - 0xF0) * 262144 + (unat b1 - 0x80) * 4096 +
                    (unat b2 - 0x80) * 64 + (unat b3 - 0x80)) = Some [b, b1, b2, b3]"
proof -
  define a y z w where "a = unat b - 0xF0" and "y = unat b1 - 0x80"
    and "z = unat b2 - 0x80" and "w = unat b3 - 0x80"
  have bounds: "y < 64" "z < 64" "w < 64"
    and orig: "0xF0 + a = unat b" "0x80 + y = unat b1" "0x80 + z = unat b2" "0x80 + w = unat b3"
    using assms(1-5) by (auto simp: a_def y_def z_def w_def continuation_def)
  have c: "0x10000 \<le> a * 262144 + y * 4096 + z * 64 + w"
    "a * 262144 + y * 4096 + z * 64 + w < 0x110000"
    using assms(6,7) by (simp_all add: a_def y_def z_def w_def)
  have "encode_cp (a * 262144 + y * 4096 + z * 64 + w) =
          Some [of_nat (0xF0 + a), of_nat (0x80 + y), of_nat (0x80 + z), of_nat (0x80 + w)]"
    using c div_mod_4 [OF bounds, of a] by (simp add: encode_cp_def)
  then show ?thesis
    unfolding orig byte_of_unat by (simp only: a_def y_def z_def w_def)
qed


lemma decode_utf8_encode: "decode_utf8 bs = Some s \<Longrightarrow> encode_utf8 s = Some bs"
proof (induction "length bs" arbitrary: bs s rule: less_induct)
  case less
  show ?case
  proof (cases bs)
    case Nil
    with less.prems show ?thesis by simp
  next
    case (Cons b r)
    show ?thesis
    proof (cases "unat b < 0x80")
      case True
      with less.prems Cons obtain s' where d: "decode_utf8 r = Some s'" and s: "s = unat b # s'"
        by (auto simp: cons_cp_def split: option.splits)
      have "encode_utf8 s' = Some r" using less.hyps [of r s'] d Cons by simp
      moreover have "encode_cp (unat b) = Some [b]" using True by (simp add: encode_cp_def)
      ultimately show ?thesis using s Cons by simp
    next
      case one: False
      with less.prems Cons obtain b1 r1 where r: "r = b1 # r1"
        by (cases r) auto
      show ?thesis
      proof (cases "0xC2 \<le> unat b \<and> unat b \<le> 0xDF")
        case True
        with less.prems Cons r one obtain s' where c: "continuation b1"
          and d: "decode_utf8 r1 = Some s'"
          and s: "s = ((unat b - 0xC0) * 64 + (unat b1 - 0x80)) # s'"
          by (auto simp: cons_cp_def split: option.splits if_splits)
        have "encode_utf8 s' = Some r1" using less.hyps [of r1 s'] d Cons r by simp
        moreover have "encode_cp ((unat b - 0xC0) * 64 + (unat b1 - 0x80)) = Some [b, b1]"
          using encode_two True c by blast
        ultimately show ?thesis using s Cons r by simp
      next
        case two: False
        with less.prems Cons r one obtain b2 r2 where r1: "r1 = b2 # r2"
          by (cases r1) auto
        show ?thesis
        proof (cases "0xE0 \<le> unat b \<and> unat b \<le> 0xEF")
          case True
          let ?c = "(unat b - 0xE0) * 4096 + (unat b1 - 0x80) * 64 + (unat b2 - 0x80)"
          from True less.prems Cons r r1 one two obtain s' where
            c: "continuation b1" "continuation b2" "0x800 \<le> ?c"
               "\<not> (0xD800 \<le> ?c \<and> ?c \<le> 0xDFFF)"
            and d: "decode_utf8 r2 = Some s'" and s: "s = ?c # s'"
            by (auto simp: cons_cp_def Let_def split: option.splits if_splits)
          have "encode_utf8 s' = Some r2" using less.hyps [of r2 s'] d Cons r r1 by simp
          moreover have "encode_cp ?c = Some [b, b1, b2]"
            using encode_three True c by blast
          ultimately show ?thesis using s Cons r r1 by simp
        next
          case three: False
          with less.prems Cons r r1 one two obtain b3 r3 where r2: "r2 = b3 # r3"
            by (cases r2) auto
          let ?c = "(unat b - 0xF0) * 262144 + (unat b1 - 0x80) * 4096 +
                    (unat b2 - 0x80) * 64 + (unat b3 - 0x80)"
          from less.prems Cons r r1 r2 one two three obtain s' where
            l: "0xF0 \<le> unat b" "unat b \<le> 0xF4" and
            c: "continuation b1" "continuation b2" "continuation b3" "0x10000 \<le> ?c"
               "?c < 0x110000"
            and d: "decode_utf8 r3 = Some s'" and s: "s = ?c # s'"
            by (auto simp: cons_cp_def Let_def split: option.splits if_splits)
          have "encode_utf8 s' = Some r3" using less.hyps [of r3 s'] d Cons r r1 r2 by simp
          moreover have "encode_cp ?c = Some [b, b1, b2, b3]"
            using encode_four l c by blast
          ultimately show ?thesis using s Cons r r1 r2 by simp
        qed
      qed
    qed
  qed
qed

lemma encode_utf8_append:
  "encode_utf8 (s @ t) =
     (case encode_utf8 s of
        None \<Rightarrow> None
      | Some a \<Rightarrow> (case encode_utf8 t of None \<Rightarrow> None | Some b \<Rightarrow> Some (a @ b)))"
  by (induction s) (auto split: option.splits)

lemma encode_latin1_append:
  "encode_latin1 (s @ t) =
     (case encode_latin1 s of
        None \<Rightarrow> None
      | Some a \<Rightarrow> (case encode_latin1 t of None \<Rightarrow> None | Some b \<Rightarrow> Some (a @ b)))"
  by (simp add: encode_latin1_def)

lemma decode_latin1_encode: "encode_latin1 (decode_latin1 bs) = Some bs"
proof -
  have "list_all (\<lambda>c. c < 256) (map unat bs)"
    using unsigned_less [where 'a = nat and 'b = 8] by (simp add: list_all_iff)
  moreover have "map of_nat (map unat bs) = bs" by (simp add: map_idI)
  ultimately show ?thesis by (simp add: encode_latin1_def decode_latin1_def)
qed

lemma decode_document_encode:
  assumes "decode_document raw = Inr (enc, content)"
  shows "encode enc content = Some raw"
proof (cases "startswith raw BOM")
  case True
  then have "raw = BOM @ drop 3 raw"
    by (metis BOM_def append_take_drop_id length_Cons list.size(3) numeral_3_eq_3 startswith_def)
  with assms True show ?thesis
    by (auto simp: decode_document_def encode_def decode_utf8_encode split: option.splits)
next
  case False
  with assms show ?thesis
    by (auto simp: decode_document_def encode_def decode_utf8_encode decode_latin1_encode
        split: option.splits)
qed

lemma encode_newline:
  assumes "encode enc content = Some raw"
  shows "encode enc (content @ [10]) = Some (raw @ [10])"
    and "encode enc (content @ [13, 10]) = Some (raw @ [13, 10])"
  using assms
  by (auto simp: encode_def encode_utf8_append encode_latin1_append encode_cp_def
      encode_latin1_def split: encoding.splits option.splits if_splits)

lemma endswith_single: "endswith s [x] = (s \<noteq> [] \<and> last s = x)"
  by (cases s rule: rev_cases) (auto simp: endswith_def)

lemma small_byte: "n < 256 \<Longrightarrow> unat (of_nat n :: byte) = n"
  by (simp add: unsigned_of_nat take_bit_nat_eq_self)

lemma byte_is_newline: "n < 256 \<Longrightarrow> ((of_nat n :: byte) = 10) = (n = 10)"
  by (simp add: word_unat_eq_iff small_byte)

lemma encode_cp_last:
  assumes "encode_cp c = Some e"
  shows "e \<noteq> [] \<and> (last e = 10) = (c = 10)"
proof (cases "c < 0x80")
  case True
  then have "e = [of_nat c]" using assms by (simp add: encode_cp_def)
  with True show ?thesis using byte_is_newline [of c] by simp
next
  case False
  have "last e = of_nat (0x80 + c mod 64)" "e \<noteq> []"
    using assms False by (auto simp: encode_cp_def split: if_splits)
  moreover have "(of_nat (0x80 + c mod 64) :: byte) \<noteq> 10"
    using byte_is_newline [of "0x80 + c mod 64"] by simp
  ultimately show ?thesis using False by simp
qed

lemma encode_utf8_newline:
  assumes "encode_utf8 s = Some bs"
  shows "endswith bs [10] = endswith s [10]"
proof (cases s rule: rev_cases)
  case Nil
  with assms show ?thesis by (simp add: endswith_def)
next
  case (snoc s' c)
  with assms obtain a e where a: "encode_utf8 s' = Some a" and e: "encode_cp c = Some e"
    and bs: "bs = a @ e"
    by (auto simp: encode_utf8_append split: option.splits)
  from encode_cp_last [OF e] bs snoc show ?thesis by (simp add: endswith_single)
qed

lemma decode_document_newline:
  assumes "decode_document raw = Inr (enc, content)"
  shows "endswith content [10] = endswith raw [10]"
proof -
  consider (sig) "startswith raw BOM" "decode_utf8 (drop 3 raw) = Some content"
    | (utf8) "decode_utf8 raw = Some content"
    | (latin1) "content = decode_latin1 raw"
    using assms by (auto simp: decode_document_def split: if_splits option.splits)
  then show ?thesis
  proof cases
    case sig
    then have r: "raw = BOM @ drop 3 raw"
      by (metis BOM_def append_take_drop_id length_Cons list.size(3) numeral_3_eq_3
          startswith_def)
    have "endswith (drop 3 raw) [10] = endswith content [10]"
      using encode_utf8_newline [OF decode_utf8_encode [OF sig(2)]] .
    moreover have "endswith raw [10] = endswith (drop 3 raw) [10]"
    proof (cases "drop 3 raw = []")
      case True
      with r have "raw = BOM" by simp
      with True show ?thesis by (simp add: endswith_single BOM_def)
    next
      case False
      then have "last raw = last (drop 3 raw)" "raw \<noteq> []" by auto
      with False show ?thesis by (simp add: endswith_single)
    qed
    ultimately show ?thesis by simp
  next
    case utf8
    from encode_utf8_newline [OF decode_utf8_encode [OF this]] show ?thesis by simp
  next
    case latin1
    show ?thesis
    proof (cases "raw = []")
      case True
      with latin1 show ?thesis by (simp add: endswith_def decode_latin1_def)
    next
      case False
      then have "last (map unat raw) = unat (last raw)" by (simp add: last_map)
      moreover have "(unat (last raw) = 10) = (last raw = 10)"
        by (simp add: word_unat_eq_iff)
      ultimately show ?thesis using False latin1
        by (simp add: endswith_single decode_latin1_def)
    qed
  qed
qed

subsection \<open>Applying no edit\<close>

lemma join_Cons: "xs \<noteq> [] \<Longrightarrow> join sep (x # xs) = x @ sep @ join sep xs"
  by (cases xs) simp_all

lemma join_split_acc: "sep \<noteq> [] \<Longrightarrow> join sep (split_acc sep cur s) = cur @ s"
proof (induction sep cur s rule: split_acc.induct)
  case (1 sep cur s)
  show ?case
  proof (cases "s = []")
    case True
    then show ?thesis by (subst split_acc.simps) simp
  next
    case False
    show ?thesis
    proof (cases "startswith s sep")
      case True
      then have s: "s = sep @ drop (length sep) s"
        by (metis append_take_drop_id startswith_def)
      have "split_acc sep cur s = cur # split_acc sep [] (drop (length sep) s)"
        using False True "1.prems" by (subst split_acc.simps) (simp del: split_acc.simps)
      then have "join sep (split_acc sep cur s) =
                   cur @ sep @ join sep (split_acc sep [] (drop (length sep) s))"
        by (simp add: join_Cons split_acc_nonempty del: split_acc.simps)
      also have "\<dots> = cur @ sep @ drop (length sep) s"
        using "1.IH"(1) False True "1.prems" by (simp del: split_acc.simps)
      finally show ?thesis using s by simp
    next
      case no: False
      then have "split_acc sep cur s = split_acc sep (cur @ [hd s]) (tl s)"
        using False by (subst split_acc.simps) (simp del: split_acc.simps)
      then show ?thesis
        using "1.IH"(2) False no "1.prems" by (simp del: split_acc.simps)
    qed
  qed
qed

lemma join_split: "sep \<noteq> [] \<Longrightarrow> join sep (split sep s) = s"
  by (simp add: split_def join_split_acc del: split_acc.simps)

lemma load_fields:
  assumes "load env raw = Inr doc"
  shows "decode_document raw = Inr (doc_encoding doc, doc_content doc) \<and>
         doc_lines doc = split (eol_str (doc_eol doc)) (doc_content doc) \<and>
         doc_sha256 doc = sha256_hexdigest env raw"
  using assms
  by (auto simp: load_def Let_def eol_str_def split: sum.splits prod.splits simp del: split_acc.simps)

lemma new_editor_fields:
  "matches (new_editor doc) = []" "diagnostics (new_editor doc) = []"
  by (simp_all add: new_editor_def)

lemma get_content_unedited:
  assumes "load env raw = Inr doc"
  shows "get_content doc (new_editor doc) = doc_content doc"
  using load_fields [OF assms]
  by (simp add: get_content_def new_editor_def join_split eol_str_def split: eol_style.splits)

text \<open>
  C5. With the hash of the file as \<^verbatim>\<open>baseSha256\<close>, no edit, \<^verbatim>\<open>dryRun = false\<close>, the original
  encoding kept and no formatter run, \<^verbatim>\<open>apply\<close> writes the bytes it read, or, when
  \<^verbatim>\<open>ensureFinalNewline\<close> holds and the file does not end with a newline byte, those bytes
  followed by the document's line ending; the hash it returns is the hash of what it wrote.
  A file that does not load is left as it is. So the file after the call is the file
  before it, but for an added final newline.
\<close>

theorem apply_without_edits:
  assumes "sha256_hexdigest env raw = base_sha256"
    and "\<not> dry_run opts" and "preserve_encoding opts"
    and "\<not> (format_mode opts = ascii ''mdformat'' \<and> MDFORMAT_AVAILABLE env)"
  shows "(case load env raw of
            Inl x \<Rightarrow>
              md_apply env (Some raw) base_sha256 [] opts = (failure IO_ERROR [], Some raw)
          | Inr doc \<Rightarrow>
              md_apply env (Some raw) base_sha256 [] opts =
                (if ensure_final_newline opts \<and> \<not> endswith raw [10] then
                   (\<lparr>ok = True, errorCode = None,
                     contentSha256 =
                       Some (sha256_hexdigest env (raw @ (if doc_eol doc = LF then [10] else [13, 10]))),
                     editsApplied = Some 0, result_matches = [], result_diagnostics = []\<rparr>,
                    Some (raw @ (if doc_eol doc = LF then [10] else [13, 10])))
                 else
                   (\<lparr>ok = True, errorCode = None, contentSha256 = Some base_sha256,
                     editsApplied = Some 0, result_matches = [], result_diagnostics = []\<rparr>,
                    Some raw))) \<and>
         (snd (md_apply env (Some raw) base_sha256 [] opts) = Some raw \<or>
          ensure_final_newline opts \<and> \<not> endswith raw [10] \<and>
          (snd (md_apply env (Some raw) base_sha256 [] opts) = Some (raw @ [10]) \<or>
           snd (md_apply env (Some raw) base_sha256 [] opts) = Some (raw @ [13, 10])))"
proof (cases "load env raw")
  case (Inl x)
  then show ?thesis by (simp add: md_apply_def)
next
  case (Inr doc)
  note f = load_fields [OF Inr]
  have enc: "encode (doc_encoding doc) (doc_content doc) = Some raw"
    using decode_document_encode f by blast
  have nl: "endswith (doc_content doc) [10] = endswith raw [10]"
    using decode_document_newline f by blast
  have fmt: "format_content env opts (doc_content doc) = Some (doc_content doc)"
    using assms(4) by (auto simp: format_content_def)
  have run: "md_apply env (Some raw) base_sha256 [] opts =
                (if ensure_final_newline opts \<and> \<not> endswith raw [10] then
                   (\<lparr>ok = True, errorCode = None,
                     contentSha256 =
                       Some (sha256_hexdigest env (raw @ (if doc_eol doc = LF then [10] else [13, 10]))),
                     editsApplied = Some 0, result_matches = [], result_diagnostics = []\<rparr>,
                    Some (raw @ (if doc_eol doc = LF then [10] else [13, 10])))
                 else
                   (\<lparr>ok = True, errorCode = None, contentSha256 = Some base_sha256,
                     editsApplied = Some 0, result_matches = [], result_diagnostics = []\<rparr>,
                    Some raw))"
    using assms(1,2,3) f enc encode_newline [OF enc]
    by (simp add: md_apply_def Inr get_content_unedited [OF Inr] fmt final_newline_def nl
        new_editor_fields)
  then show ?thesis using Inr by auto
qed

theorem apply_without_edits_witness:
  "md_apply stub_env (Some (bytes_of ''# A\<newline>old\<newline>## B\<newline>x''))
     (sha256_hexdigest stub_env (bytes_of ''# A\<newline>old\<newline>## B\<newline>x'')) [] default_options =
   (\<lparr>ok = True, errorCode = None,
     contentSha256 =
       Some (sha256_hexdigest stub_env (bytes_of ''# A\<newline>old\<newline>## B\<newline>x'' @ [10])),
     editsApplied = Some 0, result_matches = [], result_diagnostics = []\<rparr>,
    Some (bytes_of ''# A\<newline>old\<newline>## B\<newline>x'' @ [10]))"
proof -
  let ?raw = "bytes_of ''# A\<newline>old\<newline>## B\<newline>x''"
  have h: "\<not> dry_run default_options" "preserve_encoding default_options"
    "\<not> (format_mode default_options = ascii ''mdformat'' \<and> MDFORMAT_AVAILABLE stub_env)"
    by (simp_all add: default_options_def stub_env_def)
  have e: "\<not> endswith ?raw [10]" by (simp add: endswith_def bytes_of_def)
  have o: "ensure_final_newline default_options" "doc_eol doc_AB = LF"
    by (simp_all add: default_options_def doc_AB_def)
  from apply_without_edits [OF refl h, of ?raw, THEN conjunct1]
  show ?thesis by (simp add: load_AB e o)
qed

subsection \<open>The atomic batch\<close>

lemma editor_error_appends:
  "editor_error ed c m l = Inr (success, ed') \<Longrightarrow>
   \<not> success \<and> buffer ed' = buffer ed \<and>
   (\<exists>d. diagnostics ed' = diagnostics ed @ [d] \<and> severity d = ''error'' \<and> code d = Some c)"
  by (auto simp: editor_error_def)















end
